theory Spec2Isabelle
  imports Main "HOL-Library.AList" "HOL-Library.Sublist"
begin


section \<open>Errors and strings\<close>

text \<open>
  Every exception the installer can end with is a value. The filesystem faults are the
  subclasses of Python's \<open>OSError\<close> that the calls of \<open>cli.py\<close> can raise;
  \<open>ShutilError p\<close> is the \<open>shutil.Error\<close> of \<open>shutil.move\<close>, "Destination path
  \<open>p\<close> already exists", with the components of the path it names;
  \<open>RuntimeError\<close> carries its message, and \<open>SystemExit\<close> the status passed to
  \<open>sys.exit\<close>.
\<close>

datatype error =
    FileExistsError
  | FileNotFoundError
  | NotADirectoryError
  | IsADirectoryError
  | DirectoryNotEmpty
  | InvalidArgument
  | ShutilError "string list"
  | URLError
  | BadZipFile
  | JSONDecodeError
  | RuntimeError string
  | SystemExit int

text \<open>
  \<open>str.lower\<close> on the letters that matter to the asset test: an ASCII capital is
  moved to its small letter, every other character is kept.
\<close>

definition lower_char :: "char \<Rightarrow> char" where
  "lower_char c =
     (case map_of (zip ''ABCDEFGHIJKLMNOPQRSTUVWXYZ'' ''abcdefghijklmnopqrstuvwxyz'') c of
        None \<Rightarrow> c
      | Some d \<Rightarrow> d)"

definition lower :: "string \<Rightarrow> string" where
  "lower s = map lower_char s"

text \<open>\<open>sub in s\<close> of Python: \<open>sub\<close> occurs in \<open>s\<close> as a contiguous run.\<close>

fun contains :: "string \<Rightarrow> string \<Rightarrow> bool" where
  "contains sub [] = (sub = [])"
| "contains sub (c # cs) = (prefix sub (c # cs) \<or> contains sub cs)"

definition newline :: string where
  "newline = [char_of (10 :: nat)]"

section \<open>Release resolution\<close>

text \<open>
  The decoded answer of the release index: \<open>tag_name\<close> and \<open>assets\<close> are read with
  \<open>dict.get\<close> and so may be missing; an asset carries its \<open>name\<close> and its
  \<open>browser_download_url\<close>, as the schema of the index has it (the code reads both
  without a default).
\<close>

datatype asset = Asset (asset_name: string) (browser_download_url: string)

record release =
  tag_name :: "string option"
  assets :: "asset list option"

definition GITHUB_API_LATEST :: string where
  "GITHUB_API_LATEST = ''https://api.github.com/repos/gorhill/uBlock/releases/latest''"

definition is_chromium_zip :: "asset \<Rightarrow> bool" where
  "is_chromium_zip a =
     (contains ''chromium'' (lower (asset_name a)) \<and> suffix ''.zip'' (asset_name a))"

definition release_tag :: "release \<Rightarrow> string" where
  "release_tag d = (case tag_name d of None \<Rightarrow> ''unknown'' | Some t \<Rightarrow> t)"

definition release_assets :: "release \<Rightarrow> asset list" where
  "release_assets d = (case assets d of None \<Rightarrow> [] | Some xs \<Rightarrow> xs)"

definition no_asset_message :: "string \<Rightarrow> string" where
  "no_asset_message tag =
     ''Could not find a Chromium .zip asset in the latest uBlock Origin release.'' @ newline @
     ''Check https://github.com/gorhill/uBlock/releases/tag/'' @ tag"

text \<open>The loop of lines 100-103: the first asset that passes the test ends it.\<close>

fun first_chromium_zip :: "asset list \<Rightarrow> asset option" where
  "first_chromium_zip [] = None"
| "first_chromium_zip (a # rest) =
     (if is_chromium_zip a then Some a else first_chromium_zip rest)"

text \<open>
  \<open>fetch_latest_release_url\<close>, given what the request to \<open>GITHUB_API_LATEST\<close>
  answered: a fault of the network or of the decoding, which propagates, or the
  descriptor.
\<close>

definition fetch_latest_release_url :: "error + release \<Rightarrow> error + string \<times> string" where
  "fetch_latest_release_url response =
     (case response of
        Inl e \<Rightarrow> Inl e
      | Inr d \<Rightarrow>
          (case first_chromium_zip (release_assets d) of
             Some a \<Rightarrow> Inr (browser_download_url a, release_tag d)
           | None \<Rightarrow> Inl (RuntimeError (no_asset_message (release_tag d)))))"

section \<open>The filesystem\<close>

text \<open>
  The tree of files and directories. A file has its permission bits and its bytes; a
  directory lists its entries, and the order of the list is the order in which
  \<open>iterdir\<close> yields them. A path is the list of its components from the root.
  Names are compared exactly, and there are no symbolic links (\<open>zipfile\<close> creates
  none).
\<close>

datatype node = File nat string | Dir "(string \<times> node) list"

type_synonym path = "string list"

fun path_str :: "path \<Rightarrow> string" where
  "path_str [] = ''/''"
| "path_str (x # xs) = ''/'' @ x @ (if xs = [] then [] else path_str xs)"

fun lookup :: "node \<Rightarrow> path \<Rightarrow> node option" where
  "lookup n [] = Some n"
| "lookup (File m b) (x # xs) = None"
| "lookup (Dir es) (x # xs) = (case map_of es x of None \<Rightarrow> None | Some c \<Rightarrow> lookup c xs)"

definition exists_path :: "node \<Rightarrow> path \<Rightarrow> bool" where
  "exists_path t p = (lookup t p \<noteq> None)"

definition is_dir :: "node \<Rightarrow> path \<Rightarrow> bool" where
  "is_dir t p = (case lookup t p of Some (Dir es) \<Rightarrow> True | _ \<Rightarrow> False)"

definition is_file :: "node \<Rightarrow> path \<Rightarrow> bool" where
  "is_file t p = (case lookup t p of Some (File m b) \<Rightarrow> True | _ \<Rightarrow> False)"

text \<open>
  \<open>place p v t\<close> puts the node \<open>v\<close> at \<open>p\<close>, or removes what is there when \<open>v\<close>
  is \<open>None\<close>. It changes nothing when the parent of \<open>p\<close> is not a directory of
  \<open>t\<close>: the operations below check that first.
\<close>

fun place :: "path \<Rightarrow> node option \<Rightarrow> node \<Rightarrow> node" where
  "place [] v n = (case v of None \<Rightarrow> n | Some m \<Rightarrow> m)"
| "place (x # xs) v (File m b) = File m b"
| "place (x # xs) v (Dir es) =
     (if xs = [] then
        Dir (case v of None \<Rightarrow> AList.delete x es | Some c \<Rightarrow> AList.update x c es)
      else
        (case map_of es x of
           None \<Rightarrow> Dir es
         | Some c \<Rightarrow> Dir (AList.update x (place xs v c) es)))"

text \<open>The fault of a call whose parent directory is missing or is a file.\<close>

definition parent_fault :: "node \<Rightarrow> path \<Rightarrow> error" where
  "parent_fault t p =
     (case lookup t (butlast p) of Some (File m b) \<Rightarrow> NotADirectoryError | _ \<Rightarrow> FileNotFoundError)"

text \<open>\<open>Path.iterdir\<close>: the names of the entries of a directory.\<close>

definition iterdir :: "node \<Rightarrow> path \<Rightarrow> error + string list" where
  "iterdir t p =
     (case lookup t p of
        None \<Rightarrow> Inl FileNotFoundError
      | Some (File m b) \<Rightarrow> Inl NotADirectoryError
      | Some (Dir es) \<Rightarrow> Inr (map fst es))"

text \<open>\<open>shutil.rmtree\<close>: the path must be a directory.\<close>

definition rmtree :: "path \<Rightarrow> node \<Rightarrow> error + node" where
  "rmtree p t =
     (case lookup t p of
        None \<Rightarrow> Inl FileNotFoundError
      | Some (File m b) \<Rightarrow> Inl NotADirectoryError
      | Some (Dir es) \<Rightarrow> Inr (place p None t))"

text \<open>\<open>Path.rmdir\<close>: the path must be an empty directory.\<close>

definition rmdir :: "path \<Rightarrow> node \<Rightarrow> error + node" where
  "rmdir p t =
     (case lookup t p of
        None \<Rightarrow> Inl FileNotFoundError
      | Some (File m b) \<Rightarrow> Inl NotADirectoryError
      | Some (Dir es) \<Rightarrow> if es = [] then Inr (place p None t) else Inl DirectoryNotEmpty)"

text \<open>\<open>Path.mkdir(exist_ok=...)\<close>, without \<open>parents\<close>.\<close>

definition mkdir :: "bool \<Rightarrow> path \<Rightarrow> node \<Rightarrow> error + node" where
  "mkdir exist_ok p t =
     (case lookup t p of
        Some (Dir es) \<Rightarrow> if exist_ok then Inr t else Inl FileExistsError
      | Some (File m b) \<Rightarrow> Inl FileExistsError
      | None \<Rightarrow>
          if is_dir t (butlast p) then Inr (place p (Some (Dir [])) t)
          else Inl (parent_fault t p))"

text \<open>
  \<open>Path.mkdir(parents=True, exist_ok=...)\<close>: the missing directories of the path are
  created, from the first missing one down.
\<close>

fun fresh_dirs :: "path \<Rightarrow> node" where
  "fresh_dirs [] = Dir []"
| "fresh_dirs (x # xs) = Dir [(x, fresh_dirs xs)]"

fun mkdir_parents :: "bool \<Rightarrow> path \<Rightarrow> node \<Rightarrow> error + node" where
  "mkdir_parents exist_ok [] (Dir es) = (if exist_ok then Inr (Dir es) else Inl FileExistsError)"
| "mkdir_parents exist_ok [] (File m b) = Inl FileExistsError"
| "mkdir_parents exist_ok (x # xs) (File m b) = Inl NotADirectoryError"
| "mkdir_parents exist_ok (x # xs) (Dir es) =
     (case map_of es x of
        None \<Rightarrow> Inr (Dir (AList.update x (fresh_dirs xs) es))
      | Some c \<Rightarrow>
          (case mkdir_parents exist_ok xs c of
             Inl e \<Rightarrow> Inl e
           | Inr c' \<Rightarrow> Inr (Dir (AList.update x c' es))))"

text \<open>
  \<open>Path.write_text\<close>: a new file gets the permission bits \<open>mode\<close> (those of
  \<open>open\<close> under the process's umask), an existing one keeps its own.
\<close>

definition write_text :: "nat \<Rightarrow> path \<Rightarrow> string \<Rightarrow> node \<Rightarrow> error + node" where
  "write_text mode p s t =
     (case lookup t p of
        Some (Dir es) \<Rightarrow> Inl IsADirectoryError
      | Some (File m b) \<Rightarrow> Inr (place p (Some (File m s)) t)
      | None \<Rightarrow>
          if is_dir t (butlast p) then Inr (place p (Some (File mode s)) t)
          else Inl (parent_fault t p))"

definition chmod :: "path \<Rightarrow> nat \<Rightarrow> node \<Rightarrow> error + node" where
  "chmod p mode t =
     (case lookup t p of
        None \<Rightarrow> Inl FileNotFoundError
      | Some (File m b) \<Rightarrow> Inr (place p (Some (File mode b)) t)
      | Some (Dir es) \<Rightarrow> Inr t)"

text \<open>\<open>shutil.copy2\<close>: the bytes and the permission bits of a file.\<close>

definition copy2 :: "path \<Rightarrow> path \<Rightarrow> node \<Rightarrow> error + node" where
  "copy2 src dst t =
     (case lookup t src of
        None \<Rightarrow> Inl FileNotFoundError
      | Some (Dir es) \<Rightarrow> Inl IsADirectoryError
      | Some (File m b) \<Rightarrow>
          (let real_dst = (if is_dir t dst then dst @ [last src] else dst) in
           if is_dir t real_dst then Inl IsADirectoryError
           else if is_dir t (butlast real_dst) then Inr (place real_dst (Some (File m b)) t)
           else Inl (parent_fault t real_dst)))"

text \<open>
  \<open>shutil.copytree\<close>: the source must be a directory and the destination must not
  exist; its missing parents are created, and the destination becomes a copy of the
  source, files with their permission bits. A copy into the source itself does not
  end well in Python; it is a fault here.
\<close>

definition copytree :: "path \<Rightarrow> path \<Rightarrow> node \<Rightarrow> error + node" where
  "copytree src dst t =
     (case lookup t src of
        None \<Rightarrow> Inl FileNotFoundError
      | Some (File m b) \<Rightarrow> Inl NotADirectoryError
      | Some (Dir es) \<Rightarrow>
          if prefix src dst then Inl InvalidArgument
          else
            (case mkdir_parents False dst t of
               Inl e \<Rightarrow> Inl e
             | Inr t1 \<Rightarrow> Inr (place dst (Some (Dir es)) t1)))"

text \<open>
  \<open>os.rename\<close> within one filesystem: a file replaces a file, a directory replaces
  an empty directory, and a directory cannot go below itself.
\<close>

definition rename :: "path \<Rightarrow> path \<Rightarrow> node \<Rightarrow> error + node" where
  "rename src dst t =
     (case lookup t src of
        None \<Rightarrow> Inl FileNotFoundError
      | Some n \<Rightarrow>
          if src = dst then Inr t
          else if prefix src dst then Inl InvalidArgument
          else if \<not> is_dir t (butlast dst) then Inl (parent_fault t dst)
          else
            (case (n, lookup t dst) of
               (File m b, Some (Dir es)) \<Rightarrow> Inl IsADirectoryError
             | (Dir cs, Some (File m b)) \<Rightarrow> Inl NotADirectoryError
             | (Dir cs, Some (Dir es)) \<Rightarrow>
                 if es = [] then Inr (place dst (Some n) (place src None t))
                 else Inl DirectoryNotEmpty
             | _ \<Rightarrow> Inr (place dst (Some n) (place src None t))))"

text \<open>
  \<open>shutil.move(src, dst)\<close>: when \<open>dst\<close> is an existing directory the source is moved
  inside it, under its own name, and \<open>shutil.Error\<close> is raised when that name is
  taken there; otherwise the source is renamed to \<open>dst\<close>. (The copy that
  \<open>shutil.move\<close> falls back to when the rename fails serves a destination on
  another filesystem; there is one filesystem here.)
\<close>

definition move :: "path \<Rightarrow> path \<Rightarrow> node \<Rightarrow> error + node" where
  "move src dst t =
     (if is_dir t dst then
        (if src = dst then rename src dst t
         else if exists_path t (dst @ [last src])
           then Inl (ShutilError (dst @ [last src]))
         else rename src (dst @ [last src]) t)
      else rename src dst t)"

section \<open>The host and the state of the world\<close>

text \<open>
  What the program reads from its host is a parameter: the home directory, the platform
  name, the temporary name that \<open>tempfile\<close> draws, what a download answers, what
  an archive unpacks to, the JSON parser, and the return code of each run of
  \<open>pgrep\<close>, numbered from the first. The texts of the generated launcher script
  (lines 168-208, a function of the extension path) and of the property list
  (lines 214-231) are fixed templates; the development holds for any texts.
\<close>

type_synonym manifest = "(string \<times> string) list"

text \<open>
  What the bytes of a download unpack to. \<open>NotAZip\<close>: \<open>zipfile.ZipFile\<close> cannot
  open them and raises \<open>BadZipFile\<close>, with nothing unpacked. \<open>Partial e es\<close>:
  \<open>extractall\<close> raises the exception \<open>e\<close> at some member (a damaged member, a
  name that meets a file where it needs a directory), with the entries \<open>es\<close> unpacked
  so far. \<open>Complete es\<close>: the whole archive is unpacked to \<open>es\<close>.
\<close>

datatype unpacked =
    NotAZip
  | Partial error "(string \<times> node) list"
  | Complete "(string \<times> node) list"

record env =
  home :: path
  platform :: string
  file_mode :: nat
  tmp_name :: string
  urlretrieve :: "string \<Rightarrow> error + string"
  unzip :: "string \<Rightarrow> unpacked"
  json_load :: "string \<Rightarrow> manifest option"
  launch_script :: "string \<Rightarrow> string"
  info_plist :: string
  pgrep :: "nat \<Rightarrow> int"

text \<open>
  What the program changes: the filesystem tree, the files of the system's temporary
  directory (kept apart from the tree: the tool manages no path below it), the
  processes it ran, and the two output streams.
\<close>

datatype event = Run "string list" | Popen "string list" | Sleep nat

record world =
  fs :: node
  temp_files :: "(string \<times> string) list"
  events :: "event list"
  pgrep_calls :: nat
  stdout :: "string list"
  stderr :: "string list"

text \<open>Sequencing: an exception ends the sequence and keeps the state reached.\<close>

definition and_then ::
  "('s \<Rightarrow> (error + 'a) \<times> 's) \<Rightarrow> ('a \<Rightarrow> 's \<Rightarrow> (error + 'b) \<times> 's) \<Rightarrow> 's \<Rightarrow> (error + 'b) \<times> 's" where
  "and_then m k s = (case m s of (Inl e, s1) \<Rightarrow> (Inl e, s1) | (Inr x, s1) \<Rightarrow> k x s1)"

definition prim :: "(node \<Rightarrow> error + node) \<Rightarrow> node \<Rightarrow> (error + unit) \<times> node" where
  "prim f t = (case f t of Inl e \<Rightarrow> (Inl e, t) | Inr t1 \<Rightarrow> (Inr (), t1))"

definition in_fs :: "(node \<Rightarrow> (error + 'a) \<times> node) \<Rightarrow> world \<Rightarrow> (error + 'a) \<times> world" where
  "in_fs f w = (case f (fs w) of (r, t) \<Rightarrow> (r, w\<lparr>fs := t\<rparr>))"

definition say :: "string \<Rightarrow> world \<Rightarrow> world" where
  "say line w = w\<lparr>stdout := stdout w @ [line]\<rparr>"

definition complain :: "string \<Rightarrow> world \<Rightarrow> world" where
  "complain line w = w\<lparr>stderr := stderr w @ [line]\<rparr>"

section \<open>Constants\<close>

definition INSTALL_DIR :: "env \<Rightarrow> path" where
  "INSTALL_DIR env = home env @ [''.ublock-chrome'']"

definition EXTENSION_DIR :: "env \<Rightarrow> path" where
  "EXTENSION_DIR env = INSTALL_DIR env @ [''extension'']"

definition APP_NAME :: string where
  "APP_NAME = ''Chrome (uBO).app''"

definition CHROME_APP_PATH :: path where
  "CHROME_APP_PATH = [''Applications'', ''Google Chrome.app'']"

definition MV2_FLAGS :: string where
  "MV2_FLAGS = ''--disable-features=ExtensionManifestV2Unsupported,ExtensionManifestV2Disabled''"

definition MANIFEST :: string where
  "MANIFEST = ''manifest.json''"

section \<open>Helpers\<close>

definition print_header :: "string \<Rightarrow> world \<Rightarrow> world" where
  "print_header txt w =
     say [] (say (replicate 54 CHR ''='') (say (''  '' @ txt) (say (replicate 54 CHR ''='') (say [] w))))"

definition check_macos :: "env \<Rightarrow> world \<Rightarrow> (error + unit) \<times> world" where
  "check_macos env w =
     (if platform env \<noteq> ''darwin''
      then (Inl (SystemExit 1), complain ''Error: ublock-chrome is macOS-only.'' w)
      else (Inr (), w))"

definition chrome_missing_message :: string where
  "chrome_missing_message =
     ''Error: Google Chrome not found at '' @ path_str CHROME_APP_PATH @ newline @
     ''Install Chrome first, or set CHROME_APP_PATH if it'' @ [CHR 0x27] @ ''s elsewhere.''"

definition check_chrome :: "world \<Rightarrow> (error + unit) \<times> world" where
  "check_chrome w =
     (if \<not> exists_path (fs w) CHROME_APP_PATH
      then (Inl (SystemExit 1), complain chrome_missing_message w)
      else (Inr (), w))"

section \<open>Installing the extension\<close>

text \<open>Lines 113-116: a previous install is deleted, the directory is made anew.\<close>

definition clean_previous :: "path \<Rightarrow> node \<Rightarrow> (error + unit) \<times> node" where
  "clean_previous ext =
     and_then (\<lambda>t. if exists_path t ext then prim (rmtree ext) t else (Inr (), t))
       (\<lambda>_. prim (mkdir_parents True ext))"

text \<open>
  Line 119: \<open>NamedTemporaryFile(delete=False)\<close> creates an empty file under a name
  that is not in use (the creation is exclusive) and closes it.
\<close>

definition named_temporary_file :: "env \<Rightarrow> world \<Rightarrow> (error + string) \<times> world" where
  "named_temporary_file env w =
     (if map_of (temp_files w) (tmp_name env) \<noteq> None then (Inl FileExistsError, w)
      else (Inr (tmp_name env), w\<lparr>temp_files := (tmp_name env, []) # temp_files w\<rparr>))"

text \<open>
  Lines 122-124, the body of the \<open>try\<close>: the download is written to the temporary
  file, the archive is read back from it and unpacked into the extension directory,
  which lines 113-116 have left empty: its entries become those of the archive. An
  unpacking that stops part of the way raises what \<open>extractall\<close> raised and leaves
  the entries unpacked so far.
\<close>

definition retrieve_and_unpack :: "env \<Rightarrow> string \<Rightarrow> path \<Rightarrow> string \<Rightarrow> world \<Rightarrow> (error + unit) \<times> world" where
  "retrieve_and_unpack env url ext tmp w =
     (case urlretrieve env url of
        Inl e \<Rightarrow> (Inl e, w)
      | Inr bytes \<Rightarrow>
          (let w1 = w\<lparr>temp_files := AList.update tmp bytes (temp_files w)\<rparr> in
           case map_of (temp_files w1) tmp of
             None \<Rightarrow> (Inl FileNotFoundError, w1)
           | Some archive \<Rightarrow>
               (case unzip env archive of
                  NotAZip \<Rightarrow> (Inl BadZipFile, w1)
                | Partial e es \<Rightarrow> (Inl e, w1\<lparr>fs := place ext (Some (Dir es)) (fs w1)\<rparr>)
                | Complete es \<Rightarrow> (Inr (), w1\<lparr>fs := place ext (Some (Dir es)) (fs w1)\<rparr>))))"

text \<open>Line 126, the \<open>finally\<close>: \<open>os.unlink\<close> of the temporary file.\<close>

definition unlink_temp :: "string \<Rightarrow> world \<Rightarrow> (error + unit) \<times> world" where
  "unlink_temp tmp w =
     (case map_of (temp_files w) tmp of
        None \<Rightarrow> (Inl FileNotFoundError, w)
      | Some b \<Rightarrow> (Inr (), w\<lparr>temp_files := AList.delete tmp (temp_files w)\<rparr>))"

text \<open>
  \<open>try ... finally\<close>: the cleanup runs on both exits of the body; an exception of the
  body is raised again after it, unless the cleanup raises its own.
\<close>

definition try_finally ::
  "(world \<Rightarrow> (error + 'a) \<times> world) \<Rightarrow> (world \<Rightarrow> (error + unit) \<times> world) \<Rightarrow> world \<Rightarrow> (error + 'a) \<times> world" where
  "try_finally body cleanup w =
     (case body w of
        (r, w1) \<Rightarrow> (case cleanup w1 of (Inl e, w2) \<Rightarrow> (Inl e, w2) | (Inr u, w2) \<Rightarrow> (r, w2)))"

definition download_unpack :: "env \<Rightarrow> string \<Rightarrow> path \<Rightarrow> world \<Rightarrow> (error + unit) \<times> world" where
  "download_unpack env url ext =
     and_then (named_temporary_file env)
       (\<lambda>tmp. try_finally (retrieve_and_unpack env url ext tmp) (unlink_temp tmp))"

text \<open>
  A fault raised for a path below the directory \<open>p\<close>, as the same call on the whole
  tree names it.
\<close>

definition error_below :: "path \<Rightarrow> error \<Rightarrow> error" where
  "error_below p e = (case e of ShutilError q \<Rightarrow> ShutilError (p @ q) | _ \<Rightarrow> e)"

definition result_below :: "path \<Rightarrow> error + 'a \<Rightarrow> error + 'a" where
  "result_below p r = (case r of Inl e \<Rightarrow> Inl (error_below p e) | Inr x \<Rightarrow> Inr x)"

text \<open>Lines 137-138: each child of the subdirectory is moved up one level.\<close>

fun move_items :: "path \<Rightarrow> path \<Rightarrow> string list \<Rightarrow> node \<Rightarrow> (error + unit) \<times> node" where
  "move_items subdir ext [] t = (Inr (), t)"
| "move_items subdir ext (item # rest) t =
     (case move (subdir @ [item]) (ext @ [item]) t of
        Inl e \<Rightarrow> (Inl e, t)
      | Inr t1 \<Rightarrow> move_items subdir ext rest t1)"

text \<open>Lines 130-139: the flattening of a single wrapping directory.\<close>

definition flatten_layout :: "path \<Rightarrow> node \<Rightarrow> (error + unit) \<times> node" where
  "flatten_layout ext t =
     (case iterdir t ext of
        Inl e \<Rightarrow> (Inl e, t)
      | Inr children \<Rightarrow>
          if length children = 1 \<and> is_dir t (ext @ [hd children])
             \<and> exists_path t (ext @ [hd children, MANIFEST])
          then
            (let subdir = ext @ [hd children] in
             case iterdir t subdir of
               Inl e \<Rightarrow> (Inl e, t)
             | Inr items \<Rightarrow>
                 and_then (move_items subdir ext items) (\<lambda>_. prim (rmdir subdir)) t)
          else (Inr (), t))"

text \<open>Lines 141-146: the manifest is looked for at the root, opened and parsed.\<close>

definition manifest_missing_message :: "path \<Rightarrow> string" where
  "manifest_missing_message ext = ''manifest.json not found after extraction in '' @ path_str ext"

definition load_manifest :: "env \<Rightarrow> path \<Rightarrow> node \<Rightarrow> error + manifest" where
  "load_manifest env ext t =
     (if \<not> exists_path t (ext @ [MANIFEST])
      then Inl (RuntimeError (manifest_missing_message ext))
      else
        (case lookup t (ext @ [MANIFEST]) of
           None \<Rightarrow> Inl FileNotFoundError
         | Some (Dir es) \<Rightarrow> Inl IsADirectoryError
         | Some (File m b) \<Rightarrow>
             (case json_load env b of None \<Rightarrow> Inl JSONDecodeError | Some j \<Rightarrow> Inr j)))"

text \<open>
  Lines 128-146, what \<open>download_and_extract\<close> does with the extension directory once
  the archive is unpacked.
\<close>

definition normalize_and_load :: "env \<Rightarrow> path \<Rightarrow> node \<Rightarrow> (error + manifest) \<times> node" where
  "normalize_and_load env ext =
     and_then (flatten_layout ext) (\<lambda>_ t. (load_manifest env ext t, t))"

text \<open>\<open>download_and_extract\<close>, lines 111-146.\<close>

definition download_and_extract :: "env \<Rightarrow> string \<Rightarrow> world \<Rightarrow> (error + manifest) \<times> world" where
  "download_and_extract env url =
     and_then (in_fs (clean_previous (EXTENSION_DIR env)))
       (\<lambda>_. and_then (download_unpack env url (EXTENSION_DIR env))
         (\<lambda>_. in_fs (normalize_and_load env (EXTENSION_DIR env))))"

section \<open>The launcher bundle\<close>

definition create_launcher_app :: "env \<Rightarrow> node \<Rightarrow> (error + path) \<times> node" where
  "create_launcher_app env =
     (let app_dir = INSTALL_DIR env @ [APP_NAME];
          contents = app_dir @ [''Contents''];
          macos = contents @ [''MacOS''];
          resources = contents @ [''Resources''];
          launcher = macos @ [''launch.sh''];
          chrome_icon = CHROME_APP_PATH @ [''Contents'', ''Resources'', ''app.icns'']
      in
      and_then (\<lambda>t. if exists_path t app_dir then prim (rmtree app_dir) t else (Inr (), t))
       (\<lambda>_. and_then (prim (mkdir_parents False macos))
       (\<lambda>_. and_then (prim (mkdir_parents False resources))
       (\<lambda>_. and_then (prim (write_text (file_mode env) launcher
                              (launch_script env (path_str (EXTENSION_DIR env)))))
       (\<lambda>_. and_then (prim (chmod launcher 493))
       (\<lambda>_. and_then (prim (write_text (file_mode env) (contents @ [''Info.plist'']) (info_plist env)))
       (\<lambda>_. and_then (\<lambda>t. if exists_path t chrome_icon
                            then prim (copy2 chrome_icon (resources @ [''AppIcon.icns''])) t
                            else (Inr (), t))
       (\<lambda>_ t. (Inr app_dir, t)))))))))"

definition install_app_to_applications :: "env \<Rightarrow> path \<Rightarrow> node \<Rightarrow> (error + path) \<times> node" where
  "install_app_to_applications env app_dir =
     (let dest_dir = home env @ [''Applications''];
          dest = dest_dir @ [APP_NAME]
      in
      and_then (prim (mkdir True dest_dir))
       (\<lambda>_. and_then (\<lambda>t. if exists_path t dest then prim (rmtree dest) t else (Inr (), t))
       (\<lambda>_. and_then (prim (copytree app_dir dest))
       (\<lambda>_ t. (Inr dest, t)))))"

section \<open>Quitting and starting the browser\<close>

definition PGREP :: "string list" where
  "PGREP = [''pgrep'', ''-x'', ''Google Chrome'']"

definition OSASCRIPT_QUIT :: "string list" where
  "OSASCRIPT_QUIT = [''osascript'', ''-e'', ''tell application \"Google Chrome\" to quit'']"

definition PKILL :: "string list" where
  "PKILL = [''pkill'', ''-9'', ''-x'', ''Google Chrome'']"

definition run :: "string list \<Rightarrow> world \<Rightarrow> world" where
  "run argv w = w\<lparr>events := events w @ [Run argv]\<rparr>"

definition sleep :: "nat \<Rightarrow> world \<Rightarrow> world" where
  "sleep ms w = w\<lparr>events := events w @ [Sleep ms]\<rparr>"

text \<open>A run of \<open>pgrep\<close> and its return code.\<close>

definition run_pgrep :: "env \<Rightarrow> world \<Rightarrow> int \<times> world" where
  "run_pgrep env w = (pgrep env (pgrep_calls w), (run PGREP w)\<lparr>pgrep_calls := Suc (pgrep_calls w)\<rparr>)"

text \<open>
  Lines 272-276, \<open>for _ in range(n)\<close>: the result says whether the loop was left by
  \<open>break\<close>.
\<close>

fun wait_for_exit :: "env \<Rightarrow> nat \<Rightarrow> world \<Rightarrow> bool \<times> world" where
  "wait_for_exit env 0 w = (False, w)"
| "wait_for_exit env (Suc n) w =
     (case run_pgrep env w of
        (rc, w1) \<Rightarrow> if rc \<noteq> 0 then (True, w1) else wait_for_exit env n (sleep 500 w1))"

definition quit_chrome_if_running :: "env \<Rightarrow> world \<Rightarrow> world" where
  "quit_chrome_if_running env w =
     (case run_pgrep env w of
        (rc, w1) \<Rightarrow>
          if rc \<noteq> 0 then w1
          else
            (case wait_for_exit env 30 (run OSASCRIPT_QUIT (say ''  Quitting Chrome...'' w1)) of
               (broke, w2) \<Rightarrow>
                 say ''  Chrome stopped.'' (if broke then w2 else sleep 1000 (run PKILL w2))))"

definition launch_argv :: "env \<Rightarrow> string list" where
  "launch_argv env =
     [''open'', ''-a'', path_str CHROME_APP_PATH, ''--args'',
      MV2_FLAGS, ''--load-extension='' @ path_str (EXTENSION_DIR env)]"

definition launch_chrome_with_ubo :: "env \<Rightarrow> world \<Rightarrow> world" where
  "launch_chrome_with_ubo env w = w\<lparr>events := events w @ [Popen (launch_argv env)]\<rparr>"

section \<open>Commands\<close>

text \<open>Lines 388-393: each target is removed when it exists, and reported.\<close>

fun remove_targets :: "path list \<Rightarrow> world \<Rightarrow> (error + unit) \<times> world" where
  "remove_targets [] w = (Inr (), w)"
| "remove_targets (p # ps) w =
     (if exists_path (fs w) p then
        (case rmtree p (fs w) of
           Inl e \<Rightarrow> (Inl e, w)
         | Inr t \<Rightarrow> remove_targets ps (say (''  Removed: '' @ path_str p) (w\<lparr>fs := t\<rparr>)))
      else remove_targets ps (say (''  (not found: '' @ path_str p @ '')'') w))"

definition uninstall_targets :: "env \<Rightarrow> path list" where
  "uninstall_targets env = [INSTALL_DIR env, home env @ [''Applications'', APP_NAME]]"

definition cmd_uninstall :: "env \<Rightarrow> world \<Rightarrow> (error + unit) \<times> world" where
  "cmd_uninstall env =
     and_then (check_macos env)
       (\<lambda>_. and_then (\<lambda>w. (Inr (), print_header ''Uninstalling uBlock Origin Chrome'' w))
       (\<lambda>_. and_then (remove_targets (uninstall_targets env))
       (\<lambda>_ w. (Inr (),
          say [] (say ''  Done. uBlock Origin and the launcher have been removed.'' (say [] w))))))"

definition not_installed_message :: string where
  "not_installed_message =
     ''Error: uBlock Origin is not installed yet.'' @ newline @ ''Run:  ublock-chrome install''"

definition cmd_launch :: "env \<Rightarrow> world \<Rightarrow> (error + unit) \<times> world" where
  "cmd_launch env =
     and_then (check_macos env)
       (\<lambda>_. and_then check_chrome
       (\<lambda>_ w.
          if \<not> exists_path (fs w) (EXTENSION_DIR env)
             \<or> \<not> exists_path (fs w) (EXTENSION_DIR env @ [MANIFEST])
          then (Inl (SystemExit 1), complain not_installed_message w)
          else
            (Inr (),
             say [] (say ''  Chrome launched with uBlock Origin enabled.''
               (launch_chrome_with_ubo env
                 (quit_chrome_if_running env
                   (say ''  Restarting Chrome with uBlock Origin...'' w)))))))"

section \<open>Example hosts\<close>

text \<open>
  A macOS host with the browser installed and nothing of the tool on disk; the download
  succeeds and the archive unpacks to the given result; \<open>pgrep\<close> answers as given.
\<close>

definition demo_host :: "unpacked \<Rightarrow> (nat \<Rightarrow> int) \<Rightarrow> env" where
  "demo_host archive answers =
     \<lparr>home = [''Users'', ''me''], platform = ''darwin'', file_mode = 420,
      tmp_name = ''tmpq3x9.zip'', urlretrieve = (\<lambda>u. Inr ''PK''), unzip = (\<lambda>b. archive),
      json_load = (\<lambda>b. if b = ''{}'' then Some [] else None),
      launch_script = (\<lambda>p. ''open '' @ p), info_plist = ''plist'', pgrep = answers\<rparr>"

definition demo_world :: world where
  "demo_world =
     \<lparr>fs = Dir [(''Users'', Dir [(''me'', Dir [])]),
                (''Applications'', Dir [(''Google Chrome.app'', Dir [])])],
      temp_files = [], events = [], pgrep_calls = 0, stdout = [], stderr = []\<rparr>"

text \<open>
  The trees and descriptors the examples use: a home directory with the extension
  directory holding the given entries, and archives that unpack to a flat payload, to a
  payload in one wrapping directory, to a payload two levels down, to a wrapping
  directory with a child of its own name, to no manifest at all, and to a directory that
  is itself called \<open>manifest.json\<close>.
\<close>

definition demo_ext :: path where
  "demo_ext = [''Users'', ''me'', ''.ublock-chrome'', ''extension'']"

definition demo_tree :: "(string \<times> node) list \<Rightarrow> node" where
  "demo_tree es =
     Dir [(''Users'', Dir [(''me'', Dir [(''.ublock-chrome'', Dir [(''extension'', Dir es)])])]),
          (''Applications'', Dir [(''Google Chrome.app'', Dir [])])]"

definition flat_archive :: "(string \<times> node) list" where
  "flat_archive = [(''js'', Dir [(''start.js'', File 420 ''go'')]), (''manifest.json'', File 420 ''{}'')]"

definition wrapped_archive :: "(string \<times> node) list" where
  "wrapped_archive =
     [(''uBlock0.chromium'',
        Dir [(''js'', Dir [(''start.js'', File 420 ''go'')]), (''manifest.json'', File 420 ''{}'')])]"

definition nested_archive :: "(string \<times> node) list" where
  "nested_archive =
     [(''uBlock0'', Dir [(''dist'', Dir [(''manifest.json'', File 420 ''{}'')])])]"

definition clashing_archive :: "(string \<times> node) list" where
  "clashing_archive =
     [(''uBlock0'', Dir [(''uBlock0'', File 420 ''bin''), (''manifest.json'', File 420 ''{}'')])]"

definition bare_archive :: "(string \<times> node) list" where
  "bare_archive = [(''README.txt'', File 420 ''hello'')]"

definition misnamed_archive :: "(string \<times> node) list" where
  "misnamed_archive =
     [(''manifest.json'', Dir [(''dist'', Dir [(''manifest.json'', File 420 ''{}'')])])]"

definition stale_world :: world where
  "stale_world =
     demo_world\<lparr>fs :=
       Dir [(''Users'', Dir [(''me'',
              Dir [(''Applications'',
                     Dir [(''Chrome (uBO).app'', Dir [(''Contents'', Dir [(''old.txt'', File 420 ''old'')])])])])]),
            (''Applications'',
              Dir [(''Google Chrome.app'',
                     Dir [(''Contents'', Dir [(''Resources'', Dir [(''app.icns'', File 420 ''icon'')])])])])]\<rparr>"

definition bundle_tree :: node where
  "bundle_tree =
     Dir [(''Contents'',
            Dir [(''MacOS'', Dir [(''launch.sh'', File 493 ''open /Users/me/.ublock-chrome/extension'')]),
                 (''Resources'', Dir [(''AppIcon.icns'', File 420 ''icon'')]),
                 (''Info.plist'', File 420 ''plist'')])]"

definition demo_release :: release where
  "demo_release =
     \<lparr>tag_name = Some ''1.62.0'',
      assets = Some [Asset ''uBlock0_1.62.0.firefox.signed.xpi'' ''https://dl/firefox'',
                     Asset ''uBlock0_1.62.0.Chromium.zip'' ''https://dl/chromium'',
                     Asset ''uBlock0_1.62.0.chromium.mv3.zip'' ''https://dl/mv3'']\<rparr>"

definition demo_release_no_chromium :: release where
  "demo_release_no_chromium =
     \<lparr>tag_name = Some ''1.62.0'',
      assets = Some [Asset ''uBlock0_1.62.0.firefox.signed.xpi'' ''https://dl/firefox'',
                     Asset ''uBlock0_1.62.0.chromium.tar.gz'' ''https://dl/tgz'']\<rparr>"

text \<open>
  The line \<open>cmd_uninstall\<close> prints for a target, given the tree it started from.
\<close>

definition report :: "node \<Rightarrow> path \<Rightarrow> string" where
  "report t p =
     (if exists_path t p then ''  Removed: '' @ path_str p else ''  (not found: '' @ path_str p @ '')'')"

section \<open>Properties of the filesystem operations\<close>

text \<open>
  \<open>lookup\<close> and \<open>place\<close> along a path that is split in two, and what \<open>lookup\<close>
  finds where \<open>place\<close> has written.
\<close>

lemma lookup_append:
  "lookup t (p @ q) = (case lookup t p of None \<Rightarrow> None | Some n \<Rightarrow> lookup n q)"
proof (induction p arbitrary: t)
  case Nil
  show ?case by simp
next
  case (Cons x p)
  show ?case
  proof (cases t)
    case (File m b)
    then show ?thesis by simp
  next
    case (Dir es)
    then show ?thesis using Cons.IH by (simp split: option.splits)
  qed
qed

lemma place_append:
  "lookup t p = Some n \<Longrightarrow> q \<noteq> [] \<Longrightarrow> place (p @ q) v t = place p (Some (place q v n)) t"
proof (induction p arbitrary: t)
  case Nil
  then show ?case by simp
next
  case (Cons x p)
  show ?case
  proof (cases t)
    case (File m b)
    with Cons.prems show ?thesis by simp
  next
    case (Dir es)
    with Cons.prems obtain c where c: "map_of es x = Some c" "lookup c p = Some n"
      by (auto split: option.splits)
    show ?thesis
    proof (cases "p = []")
      case True
      with c Dir Cons.prems show ?thesis by simp
    next
      case False
      with c Dir Cons.prems Cons.IH [OF c(2) Cons.prems(2)] show ?thesis by simp
    qed
  qed
qed

lemma lookup_place_same:
  "lookup t p \<noteq> None \<Longrightarrow> lookup (place p (Some n) t) p = Some n"
proof (induction p arbitrary: t)
  case Nil
  show ?case by simp
next
  case (Cons x p)
  show ?case
  proof (cases t)
    case (File m b)
    with Cons.prems show ?thesis by simp
  next
    case (Dir es)
    with Cons.prems obtain c where c: "map_of es x = Some c" "lookup c p \<noteq> None"
      by (auto split: option.splits)
    with Dir Cons.IH [OF c(2)] show ?thesis by (simp add: update_conv')
  qed
qed

lemma place_place:
  "place p (Some b) (place p (Some a) t) = place p (Some b) t"
proof (induction p arbitrary: t)
  case Nil
  show ?case by simp
next
  case (Cons x p)
  show ?case
  proof (cases t)
    case (File m b)
    then show ?thesis by simp
  next
    case (Dir es)
    then show ?thesis using Cons.IH by (simp add: update_conv' split: option.splits)
  qed
qed

lemma place_lookup_id:
  "lookup t p = Some n \<Longrightarrow> place p (Some n) t = t"
proof (induction p arbitrary: t)
  case Nil
  then show ?case by simp
next
  case (Cons x p)
  show ?case
  proof (cases t)
    case (File m b)
    with Cons.prems show ?thesis by simp
  next
    case (Dir es)
    with Cons.prems obtain c where c: "map_of es x = Some c" "lookup c p = Some n"
      by (auto split: option.splits)
    with Dir Cons.IH [OF c(2)] show ?thesis by (auto simp add: update_triv)
  qed
qed

text \<open>
Creating or removing an entry of an existing directory.
\<close>

lemma lookup_place_entry:
  "p \<noteq> [] \<Longrightarrow> is_dir t (butlast p) \<Longrightarrow> lookup (place p v t) p = v"
proof (induction p arbitrary: t)
  case Nil
  then show ?case by simp
next
  case (Cons x p)
  show ?case
  proof (cases t)
    case (File m b)
    with Cons.prems show ?thesis by (cases p) (simp_all add: is_dir_def)
  next
    case (Dir es)
    show ?thesis
    proof (cases "p = []")
      case True
      with Dir show ?thesis by (cases v) (simp_all add: update_conv' delete_conv')
    next
      case False
      with Cons.prems Dir obtain c where c: "map_of es x = Some c" "is_dir c (butlast p)"
        by (auto simp: is_dir_def split: option.splits)
      with Dir False Cons.IH [OF False c(2)] show ?thesis by (simp add: update_conv')
    qed
  qed
qed

lemma parent_is_dir:
  "lookup t p \<noteq> None \<Longrightarrow> p \<noteq> [] \<Longrightarrow> is_dir t (butlast p)"
proof (induction p arbitrary: t)
  case Nil
  then show ?case by simp
next
  case (Cons x p)
  show ?case
  proof (cases t)
    case (File m b)
    with Cons.prems show ?thesis by simp
  next
    case (Dir es)
    with Cons.prems obtain c where c: "map_of es x = Some c" "lookup c p \<noteq> None"
      by (auto split: option.splits)
    show ?thesis
    proof (cases "p = []")
      case True
      with Dir show ?thesis by (simp add: is_dir_def)
    next
      case False
      with Dir c Cons.IH [OF c(2) False] show ?thesis by (simp add: is_dir_def)
    qed
  qed
qed

text \<open>
  Frame properties: an operation at one path leaves alone what lies at a path that parts
  ways with it.
\<close>

lemma lookup_place_other:
  "\<not> prefix p q \<Longrightarrow> \<not> prefix q p \<Longrightarrow> lookup (place p v t) q = lookup t q"
proof (induction p arbitrary: q t)
  case Nil
  then show ?case by simp
next
  case (Cons x p)
  from Cons.prems obtain y q' where q: "q = y # q'" by (cases q) auto
  show ?case
  proof (cases t)
    case (File m b)
    then show ?thesis by simp
  next
    case (Dir es)
    show ?thesis
    proof (cases "x = y")
      case False
      with Dir q show ?thesis
        by (cases v) (auto simp: update_conv' delete_conv' split: option.splits)
    next
      case True
      with Cons.prems q have pq: "\<not> prefix p q'" "\<not> prefix q' p" by auto
      then have "p \<noteq> []" by auto
      with Dir q True Cons.IH [OF pq] show ?thesis
        by (auto simp: update_conv' split: option.splits)
    qed
  qed
qed

lemma lookup_fresh_dirs_other:
  "\<not> prefix q p \<Longrightarrow> lookup (fresh_dirs p) q = None"
proof (induction p arbitrary: q)
  case Nil
  then show ?case by (cases q) auto
next
  case (Cons x p)
  then show ?case by (cases q) auto
qed

lemma lookup_mkdir_parents_other:
  "mkdir_parents ok p t = Inr t' \<Longrightarrow> \<not> prefix p q \<Longrightarrow> \<not> prefix q p \<Longrightarrow> lookup t' q = lookup t q"
proof (induction p arbitrary: q t t')
  case Nil
  then show ?case by simp
next
  case (Cons x p)
  from Cons.prems obtain y q' where q: "q = y # q'" by (cases q) auto
  show ?case
  proof (cases t)
    case (File m b)
    with Cons.prems show ?thesis by simp
  next
    case (Dir es)
    show ?thesis
    proof (cases "x = y")
      case False
      with Dir q Cons.prems(1) show ?thesis
        by (auto simp: update_conv' split: option.splits sum.splits)
    next
      case True
      with Cons.prems q have pq: "\<not> prefix p q'" "\<not> prefix q' p" by auto
      show ?thesis
      proof (cases "map_of es x")
        case None
        with Dir q True Cons.prems(1) pq show ?thesis
          by (auto simp: update_conv' lookup_fresh_dirs_other)
      next
        case (Some c)
        with Dir Cons.prems(1) obtain c' where c': "mkdir_parents ok p c = Inr c'" "t' = Dir (AList.update x c' es)"
          by (auto split: sum.splits)
        with Dir q True Some Cons.IH [OF c'(1) pq] show ?thesis
          by (auto simp: update_conv' split: option.splits)
      qed
    qed
  qed
qed

lemma lookup_fresh_dirs_same: "lookup (fresh_dirs p) p = Some (Dir [])"
  by (induction p) auto

lemma lookup_mkdir_parents_same:
  "mkdir_parents ok p t = Inr t' \<Longrightarrow> is_dir t' p"
proof (induction p arbitrary: t t')
  case Nil
  then show ?case by (cases t) (auto simp: is_dir_def split: if_splits)
next
  case (Cons x p)
  show ?case
  proof (cases t)
    case (File m b)
    with Cons.prems show ?thesis by simp
  next
    case (Dir es)
    show ?thesis
    proof (cases "map_of es x")
      case None
      with Dir Cons.prems show ?thesis
        by (auto simp: is_dir_def update_conv' lookup_fresh_dirs_same)
    next
      case (Some c)
      with Dir Cons.prems obtain c' where c': "mkdir_parents ok p c = Inr c'" "t' = Dir (AList.update x c' es)"
        by (auto split: sum.splits)
      with Cons.IH [OF c'(1)] show ?thesis by (auto simp: is_dir_def update_conv')
    qed
  qed
qed

lemma rmtree_removes:
  assumes "rmtree p t = Inr t'" "p \<noteq> []"
  shows "\<not> exists_path t' p"
proof -
  from assms(1) have e: "lookup t p \<noteq> None" and t': "t' = place p None t"
    by (auto simp: rmtree_def split: option.splits node.splits)
  from e assms(2) have "is_dir t (butlast p)" by (rule parent_is_dir)
  with assms(2) t' show ?thesis by (simp add: exists_path_def lookup_place_entry)
qed

lemma copytree_copies:
  assumes "copytree src dst t = Inr t'" "\<not> prefix dst src"
  shows "lookup t' dst = lookup t src \<and> lookup t' src = lookup t src \<and> is_dir t' src"
proof -
  from assms(1) obtain es t1 where
    es: "lookup t src = Some (Dir es)" and np: "\<not> prefix src dst"
    and t1: "mkdir_parents False dst t = Inr t1" and t': "t' = place dst (Some (Dir es)) t1"
    by (auto simp: copytree_def split: option.splits node.splits if_splits sum.splits)
  from t1 have "lookup t1 dst \<noteq> None" using lookup_mkdir_parents_same [OF t1] by (auto simp: is_dir_def split: option.splits)
  then have 1: "lookup t' dst = Some (Dir es)" using t' by (simp add: lookup_place_same)
  have "lookup t' src = lookup t1 src" using t' assms(2) np by (simp add: lookup_place_other)
  also have "\<dots> = lookup t src" using t1 assms(2) np by (rule lookup_mkdir_parents_other)
  finally have 2: "lookup t' src = lookup t src" .
  from 1 2 es show ?thesis by (simp add: is_dir_def)
qed

section \<open>Operations below a directory\<close>

text \<open>
  An operation on paths below a directory \<open>p\<close> acts on the subtree at \<open>p\<close> as the same
  operation, with the paths taken from \<open>p\<close>, acts on that subtree alone. This brings
  the flattening at the extension directory down to the flattening of a directory at the
  root.
\<close>

lemma is_dir_append: "lookup t p = Some n \<Longrightarrow> is_dir t (p @ q) = is_dir n q"
  by (simp add: is_dir_def lookup_append)

lemma exists_path_append: "lookup t p = Some n \<Longrightarrow> exists_path t (p @ q) = exists_path n q"
  by (simp add: exists_path_def lookup_append)

lemma iterdir_append: "lookup t p = Some n \<Longrightarrow> iterdir t (p @ q) = iterdir n q"
  by (simp add: iterdir_def lookup_append)

lemma parent_fault_append:
  "lookup t p = Some n \<Longrightarrow> q \<noteq> [] \<Longrightarrow> parent_fault t (p @ q) = parent_fault n q"
  by (simp add: parent_fault_def lookup_append butlast_append)

lemma place_twice:
  assumes "lookup t p = Some n" "a \<noteq> []" "b \<noteq> []"
  shows "place (p @ b) v (place (p @ a) u t) = place p (Some (place b v (place a u n))) t"
proof -
  let ?n1 = "place a u n"
  have 1: "place (p @ a) u t = place p (Some ?n1) t"
    using assms(1,2) by (rule place_append)
  have 2: "lookup (place p (Some ?n1) t) p = Some ?n1"
    using assms(1) by (simp add: lookup_place_same)
  have "place (p @ b) v (place p (Some ?n1) t) = place p (Some (place b v ?n1)) (place p (Some ?n1) t)"
    using 2 assms(3) by (rule place_append)
  with 1 show ?thesis by (simp add: place_place)
qed

lemma rename_below:
  assumes "lookup t p = Some n" "a \<noteq> []" "b \<noteq> []"
  shows "rename (p @ a) (p @ b) t =
           (case rename a b n of Inl e \<Rightarrow> Inl e | Inr n' \<Rightarrow> Inr (place p (Some n') t))"
proof -
  have bl: "butlast (p @ b) = p @ butlast b" using assms(3) by (simp add: butlast_append)
  show ?thesis
    unfolding rename_def
    using assms
    by (simp add: lookup_append is_dir_append parent_fault_append bl place_twice place_lookup_id
        split: option.splits node.splits)
qed

lemma rename_no_ShutilError: "rename a b n \<noteq> Inl (ShutilError q)"
  by (auto simp: rename_def parent_fault_def split: option.splits node.splits if_splits)

lemma move_below:
  assumes "lookup t p = Some n" "a \<noteq> []" "b \<noteq> []"
  shows "move (p @ a) (p @ b) t =
           (case move a b n of Inl e \<Rightarrow> Inl (error_below p e) | Inr n' \<Rightarrow> Inr (place p (Some n') t))"
proof -
  have eb: "\<And>x y. (case rename x y n of Inl e \<Rightarrow> Inl (error_below p e) | Inr n' \<Rightarrow> Inr (place p (Some n') t))
      = (case rename x y n of Inl e \<Rightarrow> Inl e | Inr n' \<Rightarrow> Inr (place p (Some n') t))"
    using rename_no_ShutilError by (auto simp: error_below_def split: sum.splits error.splits)
  have r1: "rename (p @ a) (p @ b) t =
           (case rename a b n of Inl e \<Rightarrow> Inl e | Inr n' \<Rightarrow> Inr (place p (Some n') t))"
    using assms by (rule rename_below)
  have "rename (p @ a) (p @ (b @ [last a])) t =
           (case rename a (b @ [last a]) n of Inl e \<Rightarrow> Inl e | Inr n' \<Rightarrow> Inr (place p (Some n') t))"
    using assms(1,2) by (rule rename_below) simp
  then have r2: "rename (p @ a) (p @ b @ [last a]) t =
           (case rename a (b @ [last a]) n of Inl e \<Rightarrow> Inl e | Inr n' \<Rightarrow> Inr (place p (Some n') t))"
    by simp
  have ex: "exists_path t (p @ b @ [last a]) = exists_path n (b @ [last a])"
    using assms(1) by (rule exists_path_append)
  have d: "is_dir t (p @ b) = is_dir n b" using assms(1) by (rule is_dir_append)
  show ?thesis
  proof (cases "is_dir n b")
    case False
    with d r1 show ?thesis by (simp add: move_def eb)
  next
    case True
    show ?thesis
    proof (cases "a = b")
      case True
      with \<open>is_dir n b\<close> d r1 show ?thesis by (simp add: move_def eb)
    next
      case False
      with \<open>is_dir n b\<close> d r2 ex assms(2) show ?thesis
        by (simp add: move_def eb error_below_def)
    qed
  qed
qed

lemma rmdir_below:
  assumes "lookup t p = Some n" "q \<noteq> []"
  shows "rmdir (p @ q) t =
           (case rmdir q n of Inl e \<Rightarrow> Inl e | Inr n' \<Rightarrow> Inr (place p (Some n') t))"
  using assms by (simp add: rmdir_def lookup_append place_append split: option.splits node.splits)

lemma move_items_below:
  "lookup t p = Some n \<Longrightarrow>
     move_items (p @ [d]) p items t =
       (case move_items [d] [] items n of (r, n') \<Rightarrow> (result_below p r, place p (Some n') t))"
proof (induction items arbitrary: t n)
  case Nil
  then show ?case by (simp add: place_lookup_id result_below_def)
next
  case (Cons item rest)
  have m: "move (p @ [d, item]) (p @ [item]) t =
           (case move [d, item] [item] n of Inl e \<Rightarrow> Inl (error_below p e)
            | Inr n' \<Rightarrow> Inr (place p (Some n') t))"
    using Cons.prems by (rule move_below) simp_all
  show ?case
  proof (cases "move [d, item] [item] n")
    case (Inl e)
    with m Cons.prems show ?thesis by (simp add: place_lookup_id result_below_def)
  next
    case (Inr n1)
    have l1: "lookup (place p (Some n1) t) p = Some n1"
      using Cons.prems by (simp add: lookup_place_same)
    from Inr m Cons.IH [OF l1] show ?thesis
      by (simp add: place_place split: prod.splits)
  qed
qed

lemma flatten_layout_below:
  assumes "lookup t p = Some n"
  shows "flatten_layout p t =
           (case flatten_layout [] n of (r, n') \<Rightarrow> (result_below p r, place p (Some n') t))"
proof -
  have it: "iterdir t p = iterdir n []" using iterdir_append [OF assms, of "[]"] by simp
  show ?thesis
  proof (cases "iterdir n []")
    case (Inl e)
    with it assms show ?thesis
      by (auto simp: flatten_layout_def place_lookup_id result_below_def error_below_def iterdir_def
          split: node.splits)
  next
    case (Inr children)
    let ?d = "hd children"
    have a1: "is_dir t (p @ [?d]) = is_dir n [?d]" using assms by (rule is_dir_append)
    have a2: "exists_path t (p @ [?d, MANIFEST]) = exists_path n [?d, MANIFEST]"
      using assms by (rule exists_path_append)
    have a3: "iterdir t (p @ [?d]) = iterdir n [?d]" using assms by (rule iterdir_append)
    show ?thesis
    proof (cases "length children = 1 \<and> is_dir n [?d] \<and> exists_path n [?d, MANIFEST]")
      case False
      with Inr it a1 a2 assms show ?thesis
        by (auto simp: flatten_layout_def place_lookup_id result_below_def)
    next
      case True
      show ?thesis
      proof (cases "iterdir n [?d]")
        case (Inl e)
        with True Inr it a1 a2 a3 assms show ?thesis
          by (auto simp: flatten_layout_def place_lookup_id result_below_def error_below_def iterdir_def
              split: node.splits option.splits)
      next
        case items: (Inr items)
        obtain r n1 where mi: "move_items [?d] [] items n = (r, n1)" by (cases "move_items [?d] [] items n")
        have mt: "move_items (p @ [?d]) p items t = (result_below p r, place p (Some n1) t)"
          using move_items_below [OF assms, of ?d items] mi by simp
        have l1: "lookup (place p (Some n1) t) p = Some n1"
          using assms by (simp add: lookup_place_same)
        have rd: "rmdir (p @ [?d]) (place p (Some n1) t) =
            (case rmdir [?d] n1 of Inl e \<Rightarrow> Inl e | Inr n' \<Rightarrow> Inr (place p (Some n') (place p (Some n1) t)))"
          using l1 by (rule rmdir_below) simp
        have rne: "\<And>q. rmdir [?d] n1 \<noteq> Inl (ShutilError q)"
          by (auto simp: rmdir_def split: option.splits node.splits if_splits)
        show ?thesis
        proof (cases r)
          case (Inl e)
          with True Inr it a1 a2 a3 items mi mt show ?thesis
            by (simp add: flatten_layout_def and_then_def result_below_def)
        next
          case r: (Inr u)
          show ?thesis
          proof (cases "rmdir [?d] n1")
            case (Inl e)
            with rne have "error_below p e = e" by (cases e) (auto simp: error_below_def)
            with Inl r True Inr it a1 a2 a3 items mi mt rd show ?thesis
              by (simp add: flatten_layout_def and_then_def result_below_def prim_def)
          next
            case (Inr n2)
            with r True \<open>iterdir n [] = Inr children\<close> it a1 a2 a3 items mi mt rd show ?thesis
              by (simp add: flatten_layout_def and_then_def result_below_def prim_def place_place)
          qed
        qed
      qed
    qed
  qed
qed

section \<open>The flattening of a directory\<close>

text \<open>
  The two cases of the flattening: a layout it leaves alone, and a single wrapping
  directory whose children it moves up one by one. The loop invariant of
  \<open>move_items_up\<close>: the children already moved stand at the root after the wrapping
  directory, in their order, and the rest is still inside it.
\<close>

lemma update_absent: "k \<notin> fst ` set al \<Longrightarrow> AList.update k v al = al @ [(k, v)]"
  by (induction al) auto

lemma flatten_layout_flat:
  assumes "length es \<noteq> 1 \<or> (\<exists>d m b. es = [(d, File m b)])
             \<or> (\<exists>d cs. es = [(d, Dir cs)] \<and> map_of cs MANIFEST = None)"
  shows "flatten_layout [] (Dir es) = (Inr (), Dir es)"
  using assms
  by (auto simp: flatten_layout_def iterdir_def is_dir_def exists_path_def)

lemma move_items_up:
  "distinct (map fst (moved @ rest)) \<Longrightarrow> d \<notin> fst ` set (moved @ rest) \<Longrightarrow>
     move_items [d] [] (map fst rest) (Dir ((d, Dir rest) # moved)) =
       (Inr (), Dir ((d, Dir []) # moved @ rest))"
proof (induction rest arbitrary: moved)
  case Nil
  show ?case by simp
next
  case (Cons e rest)
  obtain n c where e: "e = (n, c)" by (cases e)
  from Cons.prems e have n: "n \<noteq> d" "n \<notin> fst ` set moved" "n \<notin> fst ` set rest" by auto
  then have none: "map_of moved n = None" by (simp add: map_of_eq_None_iff)
  have del: "AList.delete n rest = rest" using n(3) by simp
  have upd: "AList.update n c moved = moved @ [(n, c)]" using n(2) by (rule update_absent)
  have mv: "move [d, n] [n] (Dir ((d, Dir (e # rest)) # moved)) =
              Inr (Dir ((d, Dir rest) # moved @ [(n, c)]))"
    using n(1) none del upd e
    by (cases c) (simp_all add: move_def rename_def is_dir_def exists_path_def)
  have "distinct (map fst ((moved @ [(n, c)]) @ rest))" "d \<notin> fst ` set ((moved @ [(n, c)]) @ rest)"
    using Cons.prems e by auto
  from Cons.IH [OF this] mv e show ?case by simp
qed

lemma flatten_layout_wrapped:
  assumes "map_of cs MANIFEST \<noteq> None" "distinct (map fst cs)" "d \<notin> fst ` set cs"
  shows "flatten_layout [] (Dir [(d, Dir cs)]) = (Inr (), Dir cs)"
proof -
  have "move_items [d] [] (map fst cs) (Dir ((d, Dir cs) # [])) = (Inr (), Dir ((d, Dir []) # [] @ cs))"
    by (rule move_items_up) (use assms in auto)
  then have mi: "move_items [d] [] (map fst cs) (Dir [(d, Dir cs)]) = (Inr (), Dir ((d, Dir []) # cs))"
    by simp
  have "AList.delete d cs = cs" using assms(3) by simp
  moreover obtain y where "map_of cs MANIFEST = Some y" using assms(1) by auto
  ultimately show ?thesis using mi
    by (simp add: flatten_layout_def iterdir_def is_dir_def exists_path_def and_then_def prim_def
        rmdir_def)
qed

section \<open>Sequencing, the temporary file and the manifest\<close>

lemma and_then_Inr:
  "and_then m k s = (Inr y, s') \<longleftrightarrow> (\<exists>x s1. m s = (Inr x, s1) \<and> k x s1 = (Inr y, s'))"
  by (auto simp: and_then_def split: prod.splits sum.splits)

lemma prim_Inr: "prim f t = (Inr u, t') \<longleftrightarrow> f t = Inr t'"
  by (auto simp: prim_def split: sum.splits)

lemma in_fs_Inr: "in_fs f w = (Inr x, w') \<longleftrightarrow> (\<exists>t. f (fs w) = (Inr x, t) \<and> w' = w\<lparr>fs := t\<rparr>)"
  by (auto simp: in_fs_def split: prod.splits)

lemma temp_files_in_fs: "temp_files (snd (in_fs f w)) = temp_files w"
  by (simp add: in_fs_def split: prod.splits)

lemma temp_files_try:
  assumes "map_of tf tmp = None" "temp_files w1 = (tmp, []) # tf"
  shows "temp_files (snd (try_finally (retrieve_and_unpack env url ext tmp) (unlink_temp tmp) w1)) = tf"
proof -
  have d: "AList.delete tmp tf = tf"
    using assms(1) by (simp add: map_of_eq_None_iff)
  show ?thesis
  proof (cases "urlretrieve env url")
    case (Inl e)
    with assms d show ?thesis
      by (simp add: try_finally_def retrieve_and_unpack_def unlink_temp_def)
  next
    case (Inr bytes)
    with assms d show ?thesis
      by (cases "unzip env bytes")
        (simp_all add: try_finally_def retrieve_and_unpack_def unlink_temp_def)
  qed
qed

lemma temp_files_download_unpack:
  "temp_files (snd (download_unpack env url ext w)) = temp_files w"
proof (cases "map_of (temp_files w) (tmp_name env)")
  case (Some b)
  then show ?thesis by (simp add: download_unpack_def and_then_def named_temporary_file_def)
next
  case None
  then show ?thesis
    using temp_files_try [of "temp_files w" "tmp_name env"
        "w\<lparr>temp_files := (tmp_name env, []) # temp_files w\<rparr>" env url ext]
    by (simp add: download_unpack_def and_then_def named_temporary_file_def)
qed

lemma load_manifest_Inr:
  "load_manifest env ext t = Inr m \<Longrightarrow>
     \<exists>mode b. lookup t (ext @ [MANIFEST]) = Some (File mode b) \<and> json_load env b = Some m"
  by (auto simp: load_manifest_def split: if_splits option.splits node.splits)

lemma load_manifest_RuntimeError:
  "load_manifest env ext t = Inl (RuntimeError msg) \<longleftrightarrow>
     \<not> exists_path t (ext @ [MANIFEST])
     \<and> msg = ''manifest.json not found after extraction in '' @ path_str ext"
  by (auto simp: load_manifest_def manifest_missing_message_def split: option.splits node.splits)

text \<open>A flattening that returns leaves a directory where the directory was.\<close>

lemma flatten_layout_root_dir:
  "flatten_layout [] n = (Inr u, n') \<Longrightarrow> \<exists>es. n' = Dir es"
proof -
  assume a: "flatten_layout [] n = (Inr u, n')"
  then obtain es where n: "n = Dir es"
    by (cases n) (auto simp: flatten_layout_def iterdir_def)
  show ?thesis
  proof (cases "length (map fst es) = 1 \<and> is_dir n [hd (map fst es)]
      \<and> exists_path n [hd (map fst es), MANIFEST]")
    case False
    with a n show ?thesis by (auto simp: flatten_layout_def iterdir_def)
  next
    case True
    with a n obtain n1 where "rmdir [hd (map fst es)] n1 = Inr n'"
      by (auto simp: flatten_layout_def iterdir_def Let_def and_then_Inr prim_Inr
          split: sum.splits option.splits node.splits)
    then show ?thesis
      by (cases n1) (auto simp: rmdir_def split: option.splits node.splits if_splits)
  qed
qed

lemma flatten_layout_keeps_directory:
  assumes "flatten_layout ext t = (Inr u, t3)"
  shows "is_dir t3 ext"
proof -
  from assms obtain es where l: "lookup t ext = Some (Dir es)"
    by (auto simp: flatten_layout_def iterdir_def split: option.splits node.splits)
  obtain r n' where f: "flatten_layout [] (Dir es) = (r, n')" by (cases "flatten_layout [] (Dir es)")
  with flatten_layout_below [OF l] assms have r: "result_below ext r = Inr u" and t3: "t3 = place ext (Some n') t"
    by simp_all
  from r have "r = Inr u" by (cases r) (simp_all add: result_below_def)
  with f obtain es' where "n' = Dir es'" using flatten_layout_root_dir by blast
  with t3 l show ?thesis by (simp add: is_dir_def lookup_place_same)
qed

section \<open>The first matching asset, the polling loop, the bundle paths\<close>

lemma first_chromium_zip_Some:
  "first_chromium_zip xs = Some a \<Longrightarrow>
     \<exists>i < length xs. xs ! i = a \<and> is_chromium_zip a \<and> (\<forall>j < i. \<not> is_chromium_zip (xs ! j))"
proof (induction xs)
  case Nil
  then show ?case by simp
next
  case (Cons x xs)
  show ?case
  proof (cases "is_chromium_zip x")
    case True
    with Cons.prems have "(x # xs) ! 0 = a \<and> is_chromium_zip a \<and> (\<forall>j < 0. \<not> is_chromium_zip ((x # xs) ! j))"
      by simp
    then show ?thesis by (intro exI [of _ 0]) simp
  next
    case False
    with Cons obtain k where k: "k < length xs" "xs ! k = a" "is_chromium_zip a"
      "\<forall>j < k. \<not> is_chromium_zip (xs ! j)" by auto
    have "\<forall>j < Suc k. \<not> is_chromium_zip ((x # xs) ! j)"
    proof (intro allI impI)
      fix j assume "j < Suc k"
      then show "\<not> is_chromium_zip ((x # xs) ! j)" using False k(4) by (cases j) auto
    qed
    with k show ?thesis by (intro exI [of _ "Suc k"]) simp
  qed
qed

lemma first_chromium_zip_None:
  "first_chromium_zip xs = None \<longleftrightarrow> (\<forall>a \<in> set xs. \<not> is_chromium_zip a)"
  by (induction xs) auto

lemma ex_less_Suc: "(\<exists>k < Suc n. P k) \<longleftrightarrow> P 0 \<or> (\<exists>k < n. P (Suc k))"
  by (auto simp: less_Suc_eq_0_disj)

lemma wait_for_exit_kills:
  "wait_for_exit env n w = (b, w') \<Longrightarrow>
     count_list (events w') (Run PKILL) = count_list (events w) (Run PKILL)
     \<and> (b \<longleftrightarrow> (\<exists>k < n. pgrep env (pgrep_calls w + k) \<noteq> 0))"
proof (induction n arbitrary: w)
  case 0
  then show ?case by simp
next
  case (Suc n)
  let ?w1 = "(run PGREP w)\<lparr>pgrep_calls := Suc (pgrep_calls w)\<rparr>"
  have ne: "Run PGREP \<noteq> Run PKILL" by (simp add: PGREP_def PKILL_def)
  show ?case
  proof (cases "pgrep env (pgrep_calls w) = 0")
    case False
    with Suc.prems ne show ?thesis
      by (auto simp: run_pgrep_def run_def ex_less_Suc)
  next
    case True
    with Suc.prems have "wait_for_exit env n (sleep 500 ?w1) = (b, w')"
      by (simp add: run_pgrep_def)
    from Suc.IH [OF this] True ne show ?thesis
      by (simp add: run_def sleep_def ex_less_Suc)
  qed
qed

lemma bundle_paths_apart:
  "\<not> prefix (home env @ [''Applications'', APP_NAME]) (INSTALL_DIR env @ [APP_NAME])"
  "\<not> prefix (INSTALL_DIR env @ [APP_NAME]) (home env @ [''Applications'', APP_NAME])"
  by (simp_all add: INSTALL_DIR_def)

lemma create_launcher_app_path:
  "create_launcher_app env t = (Inr app, t1) \<Longrightarrow> app = INSTALL_DIR env @ [APP_NAME]"
  by (auto simp: create_launcher_app_def Let_def and_then_Inr)

lemma targets_apart:
  "\<not> prefix (INSTALL_DIR env) (home env @ [''Applications'', APP_NAME])"
  "\<not> prefix (home env @ [''Applications'', APP_NAME]) (INSTALL_DIR env)"
  by (simp_all add: INSTALL_DIR_def)

lemma remove_one:
  assumes "exists_path (fs w) p \<longrightarrow> is_dir (fs w) p" "p \<noteq> []"
  shows "\<exists>t. remove_targets (p # ps) w = remove_targets ps (say (report (fs w) p) (w\<lparr>fs := t\<rparr>))
            \<and> \<not> exists_path t p
            \<and> (\<forall>q. \<not> prefix p q \<and> \<not> prefix q p \<longrightarrow> lookup t q = lookup (fs w) q)"
proof (cases "exists_path (fs w) p")
  case False
  then show ?thesis by (intro exI [of _ "fs w"]) (simp add: report_def)
next
  case True
  with assms(1) obtain es where es: "lookup (fs w) p = Some (Dir es)"
    by (auto simp: is_dir_def split: option.splits node.splits)
  then have r: "rmtree p (fs w) = Inr (place p None (fs w))" by (simp add: rmtree_def)
  then have "\<not> exists_path (place p None (fs w)) p" using assms(2) by (rule rmtree_removes)
  with True r show ?thesis
    by (intro exI [of _ "place p None (fs w)"]) (simp add: report_def lookup_place_other)
qed

section \<open>The examples, evaluated\<close>

lemmas demo_unfold =
  download_and_extract_def demo_host_def demo_world_def and_then_def in_fs_def clean_previous_def
  EXTENSION_DIR_def INSTALL_DIR_def exists_path_def prim_def download_unpack_def named_temporary_file_def
  try_finally_def retrieve_and_unpack_def unlink_temp_def normalize_and_load_def flatten_layout_def
  iterdir_def is_dir_def MANIFEST_def move_def rename_def rmdir_def demo_tree_def demo_ext_def
  load_manifest_def manifest_missing_message_def

lemmas launcher_unfold =
  create_launcher_app_def install_app_to_applications_def Let_def and_then_def prim_def
  demo_host_def demo_world_def stale_world_def INSTALL_DIR_def EXTENSION_DIR_def APP_NAME_def
  CHROME_APP_PATH_def exists_path_def is_dir_def rmtree_def mkdir_def write_text_def chmod_def
  copy2_def copytree_def parent_fault_def

lemmas command_unfold =
  cmd_launch_def cmd_uninstall_def and_then_def check_macos_def check_chrome_def complain_def say_def
  print_header_def demo_host_def demo_world_def exists_path_def is_dir_def CHROME_APP_PATH_def
  EXTENSION_DIR_def INSTALL_DIR_def APP_NAME_def MANIFEST_def uninstall_targets_def rmtree_def
  not_installed_message_def chrome_missing_message_def newline_def

lemma demo_ext_eq: "EXTENSION_DIR (demo_host a f) = demo_ext"
  by (simp add: EXTENSION_DIR_def INSTALL_DIR_def demo_host_def demo_ext_def)

lemma lookup_demo_tree: "lookup (demo_tree es) demo_ext = Some (Dir es)"
  by (simp add: demo_tree_def demo_ext_def)

lemma demo_release_matches:
  "\<not> is_chromium_zip (release_assets demo_release ! 0)"
  "is_chromium_zip (release_assets demo_release ! 1)"
  "is_chromium_zip (release_assets demo_release ! 2)"
  "length (release_assets demo_release) = 3"
  "release_tag demo_release = ''1.62.0''"
  by (simp_all add: demo_release_def release_assets_def release_tag_def is_chromium_zip_def
      lower_def lower_char_def suffix_to_prefix)

lemma demo_release_no_chromium_matches:
  "\<forall>a \<in> set (release_assets demo_release_no_chromium). \<not> is_chromium_zip a"
  "release_tag demo_release_no_chromium = ''1.62.0''"
  by (simp_all add: demo_release_no_chromium_def release_assets_def release_tag_def is_chromium_zip_def
      lower_def lower_char_def suffix_to_prefix)

lemma demo_install_wrapped:
  "download_and_extract (demo_host (Complete wrapped_archive) (\<lambda>k. 1)) ''u'' demo_world
     = (Inr [], demo_world\<lparr>fs := demo_tree flat_archive\<rparr>)"
  by (simp add: demo_unfold wrapped_archive_def flat_archive_def)

lemma demo_stages:
  "in_fs (clean_previous (EXTENSION_DIR (demo_host (Complete a) f))) demo_world
     = (Inr (), demo_world\<lparr>fs := demo_tree []\<rparr>)"
  "download_unpack (demo_host (Complete a) f) ''u'' (EXTENSION_DIR (demo_host (Complete a) f))
       (demo_world\<lparr>fs := demo_tree []\<rparr>)
     = (Inr (), demo_world\<lparr>fs := demo_tree a\<rparr>)"
  by (simp_all add: demo_unfold)

lemma demo_flatten_nested:
  "flatten_layout (EXTENSION_DIR (demo_host (Complete nested_archive) f)) (fs (demo_world\<lparr>fs := demo_tree nested_archive\<rparr>))
     = (Inr (), demo_tree nested_archive)"
  by (simp add: demo_unfold nested_archive_def)

lemma demo_flatten_flat:
  "flatten_layout (EXTENSION_DIR (demo_host (Complete flat_archive) f)) (fs (demo_world\<lparr>fs := demo_tree flat_archive\<rparr>))
     = (Inr (), demo_tree flat_archive)"
  by (simp add: demo_unfold flat_archive_def)

lemma demo_build:
  "fst (create_launcher_app (demo_host NotAZip (\<lambda>k. 1)) (fs stale_world))
     = Inr [''Users'', ''me'', ''.ublock-chrome'', ''Chrome (uBO).app'']"
  by (simp add: launcher_unfold)

lemma demo_deploy:
  "fst (install_app_to_applications (demo_host NotAZip (\<lambda>k. 1))
         [''Users'', ''me'', ''.ublock-chrome'', ''Chrome (uBO).app'']
         (snd (create_launcher_app (demo_host NotAZip (\<lambda>k. 1)) (fs stale_world))))
     = Inr [''Users'', ''me'', ''Applications'', ''Chrome (uBO).app'']"
  by (simp add: launcher_unfold)

lemma demo_deployed_tree:
  "lookup (snd (install_app_to_applications (demo_host NotAZip (\<lambda>k. 1))
         [''Users'', ''me'', ''.ublock-chrome'', ''Chrome (uBO).app'']
         (snd (create_launcher_app (demo_host NotAZip (\<lambda>k. 1)) (fs stale_world)))))
      [''Users'', ''me'', ''Applications'', ''Chrome (uBO).app'']
     = Some bundle_tree"
  by (simp add: launcher_unfold bundle_tree_def)

section \<open>The claims\<close>

subsection \<open>C1: the flattening\<close>

text \<open>
  \<^bold>\<open>C1\<close>, as amended. Let the extension directory hold the entries \<open>es\<close> once the
  archive is unpacked. When the layout is already flat (it has no single entry, or its
  single entry is a file, or its single entry is a directory without a manifest at its
  root), the flattening changes nothing: it is a fixed point, \<open>download_and_extract\<close>
  goes on with the tree as it is, and a manifest at the root is still there at the end.
  When \<open>es\<close> is one directory that has a manifest at its root and no child under the
  directory's own name, the flattening succeeds, the children of that directory become
  the entries of the extension directory, and the manifest is at its root at the end.
\<close>

theorem flatten_layout_normalizes:
  assumes "lookup t ext = Some (Dir es)"
  shows
    "(length es \<noteq> 1 \<or> (\<exists>d m b. es = [(d, File m b)])
        \<or> (\<exists>d cs. es = [(d, Dir cs)] \<and> map_of cs MANIFEST = None)
      \<longrightarrow> flatten_layout ext t = (Inr (), t) \<and> snd (normalize_and_load env ext t) = t
          \<and> (map_of es MANIFEST \<noteq> None \<longrightarrow> exists_path (snd (normalize_and_load env ext t)) (ext @ [MANIFEST])))
     \<and> (\<forall>d cs. es = [(d, Dir cs)] \<and> map_of cs MANIFEST \<noteq> None \<and> distinct (map fst cs)
                 \<and> d \<notin> fst ` set cs
      \<longrightarrow> flatten_layout ext t = (Inr (), place ext (Some (Dir cs)) t)
          \<and> lookup (snd (normalize_and_load env ext t)) ext = Some (Dir cs)
          \<and> exists_path (snd (normalize_and_load env ext t)) (ext @ [MANIFEST]))"
proof (intro conjI impI allI)
  assume flat: "length es \<noteq> 1 \<or> (\<exists>d m b. es = [(d, File m b)])
        \<or> (\<exists>d cs. es = [(d, Dir cs)] \<and> map_of cs MANIFEST = None)"
  then have "flatten_layout [] (Dir es) = (Inr (), Dir es)" by (rule flatten_layout_flat)
  then show f: "flatten_layout ext t = (Inr (), t)"
    using flatten_layout_below [OF assms] assms by (simp add: place_lookup_id result_below_def)
  then show s: "snd (normalize_and_load env ext t) = t"
    by (simp add: normalize_and_load_def and_then_def)
  assume "map_of es MANIFEST \<noteq> None"
  then obtain y where "map_of es MANIFEST = Some y" by auto
  with s assms show "exists_path (snd (normalize_and_load env ext t)) (ext @ [MANIFEST])"
    by (simp add: exists_path_def lookup_append)
next
  fix d cs
  assume w: "es = [(d, Dir cs)] \<and> map_of cs MANIFEST \<noteq> None \<and> distinct (map fst cs)
                 \<and> d \<notin> fst ` set cs"
  then have "flatten_layout [] (Dir [(d, Dir cs)]) = (Inr (), Dir cs)"
    by (intro flatten_layout_wrapped) auto
  with w show f: "flatten_layout ext t = (Inr (), place ext (Some (Dir cs)) t)"
    using flatten_layout_below [OF assms] by (simp add: result_below_def)
  then have s: "snd (normalize_and_load env ext t) = place ext (Some (Dir cs)) t"
    by (simp add: normalize_and_load_def and_then_def)
  have l: "lookup (place ext (Some (Dir cs)) t) ext = Some (Dir cs)"
    using assms by (simp add: lookup_place_same)
  with s show "lookup (snd (normalize_and_load env ext t)) ext = Some (Dir cs)" by simp
  from w obtain y where "map_of cs MANIFEST = Some y" by auto
  with s l show "exists_path (snd (normalize_and_load env ext t)) (ext @ [MANIFEST])"
    by (simp add: exists_path_def lookup_append)
qed

text \<open>
  Both cases on an example: the wrapped payload ends as the flat one, and the flat one
  is left alone.
\<close>

theorem flatten_layout_normalizes_witness:
  "lookup (demo_tree wrapped_archive) demo_ext = Some (Dir wrapped_archive)
   \<and> lookup (snd (normalize_and_load (demo_host NotAZip (\<lambda>k. 1)) demo_ext (demo_tree wrapped_archive))) demo_ext
       = Some (Dir flat_archive)
   \<and> exists_path (snd (normalize_and_load (demo_host NotAZip (\<lambda>k. 1)) demo_ext (demo_tree wrapped_archive)))
        (demo_ext @ [MANIFEST])
   \<and> lookup (demo_tree flat_archive) demo_ext = Some (Dir flat_archive)
   \<and> flatten_layout demo_ext (demo_tree flat_archive) = (Inr (), demo_tree flat_archive)
   \<and> exists_path (snd (normalize_and_load (demo_host NotAZip (\<lambda>k. 1)) demo_ext (demo_tree flat_archive)))
        (demo_ext @ [MANIFEST])"
proof -
  have w: "wrapped_archive = [(''uBlock0.chromium'', Dir flat_archive)]
       \<and> map_of flat_archive MANIFEST \<noteq> None \<and> distinct (map fst flat_archive)
       \<and> ''uBlock0.chromium'' \<notin> fst ` set flat_archive"
    by (simp add: wrapped_archive_def flat_archive_def MANIFEST_def)
  have f: "length flat_archive \<noteq> 1" "map_of flat_archive MANIFEST \<noteq> None"
    by (simp_all add: flat_archive_def MANIFEST_def)
  from w flatten_layout_normalizes [OF lookup_demo_tree, of wrapped_archive "demo_host NotAZip (\<lambda>k. 1)"]
  have 1: "lookup (snd (normalize_and_load (demo_host NotAZip (\<lambda>k. 1)) demo_ext (demo_tree wrapped_archive))) demo_ext
       = Some (Dir flat_archive)
   \<and> exists_path (snd (normalize_and_load (demo_host NotAZip (\<lambda>k. 1)) demo_ext (demo_tree wrapped_archive)))
        (demo_ext @ [MANIFEST])"
    by blast
  from f flatten_layout_normalizes [OF lookup_demo_tree, of flat_archive "demo_host NotAZip (\<lambda>k. 1)"]
  have 2: "flatten_layout demo_ext (demo_tree flat_archive) = (Inr (), demo_tree flat_archive)
   \<and> exists_path (snd (normalize_and_load (demo_host NotAZip (\<lambda>k. 1)) demo_ext (demo_tree flat_archive)))
        (demo_ext @ [MANIFEST])"
    by blast
  from 1 2 show ?thesis by (simp add: lookup_demo_tree)
qed

text \<open>
  The claim as stated speaks of every state the unpacking can leave, and it fails there.
  An archive whose payload sits two levels down ends in the missing-manifest error, with
  no manifest at the root. An archive whose wrapping directory \<open>uBlock0\<close> has a child
  that is also called \<open>uBlock0\<close> ends in the \<open>shutil.Error\<close> of the first move:
  the destination \<open>extension/uBlock0\<close> is the wrapping directory itself, so
  \<open>shutil.move\<close> looks for \<open>extension/uBlock0/uBlock0\<close>, which is the source.
  Nothing has been moved, and the manifest is not at the root.
\<close>

theorem install_without_manifest_counterexample:
  "fst (download_and_extract (demo_host (Complete nested_archive) (\<lambda>k. 1)) ''u'' demo_world)
     = Inl (RuntimeError ''manifest.json not found after extraction in /Users/me/.ublock-chrome/extension'')
   \<and> \<not> exists_path (fs (snd (download_and_extract (demo_host (Complete nested_archive) (\<lambda>k. 1)) ''u'' demo_world)))
        (demo_ext @ [MANIFEST])
   \<and> fst (download_and_extract (demo_host (Complete clashing_archive) (\<lambda>k. 1)) ''u'' demo_world)
     = Inl (ShutilError (demo_ext @ [''uBlock0'', ''uBlock0'']))
   \<and> \<not> exists_path (fs (snd (download_and_extract (demo_host (Complete clashing_archive) (\<lambda>k. 1)) ''u'' demo_world)))
        (demo_ext @ [MANIFEST])"
  by code_simp

subsection \<open>C2: the release asset\<close>

text \<open>
  \<^bold>\<open>C2\<close>. For every release descriptor \<open>d\<close>: when some asset has a name that
  contains \<open>chromium\<close>, whatever the case of its letters, and ends with \<open>.zip\<close>,
  \<open>fetch_latest_release_url\<close> returns the download URL of the first such asset of the
  list together with the tag of \<open>d\<close>; when no asset does, it raises a
  \<open>RuntimeError\<close> whose message ends with the tag.
\<close>

theorem fetch_latest_release_url_first_match:
  "((\<exists>a \<in> set (release_assets d). is_chromium_zip a) \<longrightarrow>
      (\<exists>i < length (release_assets d).
          is_chromium_zip (release_assets d ! i)
          \<and> (\<forall>j < i. \<not> is_chromium_zip (release_assets d ! j))
          \<and> fetch_latest_release_url (Inr d)
              = Inr (browser_download_url (release_assets d ! i), release_tag d)))
   \<and> ((\<forall>a \<in> set (release_assets d). \<not> is_chromium_zip a) \<longrightarrow>
        fetch_latest_release_url (Inr d)
          = Inl (RuntimeError
              (''Could not find a Chromium .zip asset in the latest uBlock Origin release.''
               @ newline @ ''Check https://github.com/gorhill/uBlock/releases/tag/'' @ release_tag d)))"
proof (intro conjI impI)
  assume "\<exists>a \<in> set (release_assets d). is_chromium_zip a"
  then have "first_chromium_zip (release_assets d) \<noteq> None"
    by (simp add: first_chromium_zip_None)
  then obtain a where a: "first_chromium_zip (release_assets d) = Some a" by auto
  from first_chromium_zip_Some [OF a] obtain i where
    i: "i < length (release_assets d)" "release_assets d ! i = a" "is_chromium_zip a"
       "\<forall>j < i. \<not> is_chromium_zip (release_assets d ! j)" by blast
  from a i(2) have "fetch_latest_release_url (Inr d)
      = Inr (browser_download_url (release_assets d ! i), release_tag d)"
    by (simp add: fetch_latest_release_url_def)
  with i show "\<exists>i < length (release_assets d).
          is_chromium_zip (release_assets d ! i)
          \<and> (\<forall>j < i. \<not> is_chromium_zip (release_assets d ! j))
          \<and> fetch_latest_release_url (Inr d)
              = Inr (browser_download_url (release_assets d ! i), release_tag d)"
    by blast
next
  assume "\<forall>a \<in> set (release_assets d). \<not> is_chromium_zip a"
  then have "first_chromium_zip (release_assets d) = None"
    by (simp add: first_chromium_zip_None)
  then show "fetch_latest_release_url (Inr d)
          = Inl (RuntimeError
              (''Could not find a Chromium .zip asset in the latest uBlock Origin release.''
               @ newline @ ''Check https://github.com/gorhill/uBlock/releases/tag/'' @ release_tag d))"
    by (simp add: fetch_latest_release_url_def no_asset_message_def)
qed

text \<open>
  A release with a Firefox asset first and two Chromium archives after it gives the URL
  of the first Chromium archive; a release without one gives the error that names the
  tag.
\<close>

theorem fetch_latest_release_url_first_match_witness:
  "is_chromium_zip (release_assets demo_release ! 1)
   \<and> is_chromium_zip (release_assets demo_release ! 2)
   \<and> fetch_latest_release_url (Inr demo_release) = Inr (''https://dl/chromium'', ''1.62.0'')
   \<and> fetch_latest_release_url (Inr demo_release_no_chromium)
       = Inl (RuntimeError
           (''Could not find a Chromium .zip asset in the latest uBlock Origin release.''
            @ newline @ ''Check https://github.com/gorhill/uBlock/releases/tag/1.62.0''))"
proof -
  have "\<exists>a \<in> set (release_assets demo_release). is_chromium_zip a"
  proof
    show "release_assets demo_release ! 1 \<in> set (release_assets demo_release)"
      using demo_release_matches(4) by (intro nth_mem) simp
    show "is_chromium_zip (release_assets demo_release ! 1)" by (rule demo_release_matches(2))
  qed
  with fetch_latest_release_url_first_match [of demo_release]
  obtain i where i: "i < 3" "is_chromium_zip (release_assets demo_release ! i)"
    "\<forall>j < i. \<not> is_chromium_zip (release_assets demo_release ! j)"
    "fetch_latest_release_url (Inr demo_release)
       = Inr (browser_download_url (release_assets demo_release ! i), release_tag demo_release)"
    using demo_release_matches(4) by auto
  have "i = 1"
  proof -
    have "i \<noteq> 0"
    proof
      assume "i = 0"
      with i(2) demo_release_matches(1) show False by simp
    qed
    moreover have "\<not> 1 < i"
    proof
      assume "1 < i"
      with i(3) have "\<not> is_chromium_zip (release_assets demo_release ! 1)" by blast
      with demo_release_matches(2) show False by simp
    qed
    ultimately show ?thesis by simp
  qed
  with i(4) have 1: "fetch_latest_release_url (Inr demo_release) = Inr (''https://dl/chromium'', ''1.62.0'')"
    by (simp add: demo_release_matches(5)) (simp add: demo_release_def release_assets_def)
  from fetch_latest_release_url_first_match [of demo_release_no_chromium] demo_release_no_chromium_matches
  have 2: "fetch_latest_release_url (Inr demo_release_no_chromium)
       = Inl (RuntimeError
           (''Could not find a Chromium .zip asset in the latest uBlock Origin release.''
            @ newline @ ''Check https://github.com/gorhill/uBlock/releases/tag/1.62.0''))"
    by simp
  from 1 2 demo_release_matches show ?thesis by simp
qed

subsection \<open>C3: the manifest invariant\<close>

text \<open>
  \<^bold>\<open>C3\<close>, as amended. When \<open>download_and_extract\<close> returns normally, the extension
  directory exists and the manifest at its root is a file whose content parses to the
  manifest returned. When it has cleaned, unpacked and flattened, and nothing exists at
  the manifest's path, it raises the missing-manifest error and leaves the extension
  directory in place, without a manifest at its root.
\<close>

theorem install_success_leaves_manifest:
  "(download_and_extract env url w = (Inr m, w') \<longrightarrow>
      is_dir (fs w') (EXTENSION_DIR env)
      \<and> (\<exists>mode b. lookup (fs w') (EXTENSION_DIR env @ [MANIFEST]) = Some (File mode b)
                   \<and> json_load env b = Some m))
   \<and> (in_fs (clean_previous (EXTENSION_DIR env)) w = (Inr (), w1)
      \<and> download_unpack env url (EXTENSION_DIR env) w1 = (Inr (), w2)
      \<and> flatten_layout (EXTENSION_DIR env) (fs w2) = (Inr (), t3)
      \<and> \<not> exists_path t3 (EXTENSION_DIR env @ [MANIFEST]) \<longrightarrow>
      download_and_extract env url w
        = (Inl (RuntimeError (manifest_missing_message (EXTENSION_DIR env))), w2\<lparr>fs := t3\<rparr>)
      \<and> is_dir t3 (EXTENSION_DIR env))"
proof (intro conjI impI)
  assume a: "download_and_extract env url w = (Inr m, w')"
  then obtain w2 where "in_fs (normalize_and_load env (EXTENSION_DIR env)) w2 = (Inr m, w')"
    by (auto simp: download_and_extract_def and_then_Inr)
  then obtain t where t: "normalize_and_load env (EXTENSION_DIR env) (fs w2) = (Inr m, t)" "w' = w2\<lparr>fs := t\<rparr>"
    by (auto simp: in_fs_Inr)
  from t(1) have "load_manifest env (EXTENSION_DIR env) t = Inr m"
    by (auto simp: normalize_and_load_def and_then_Inr)
  then obtain mode b where mb: "lookup t (EXTENSION_DIR env @ [MANIFEST]) = Some (File mode b)"
      "json_load env b = Some m"
    using load_manifest_Inr by blast
  from mb(1) have "is_dir t (butlast (EXTENSION_DIR env @ [MANIFEST]))"
    by (intro parent_is_dir) simp_all
  with mb t(2) show "is_dir (fs w') (EXTENSION_DIR env)" by simp
  from mb t(2) show "\<exists>mode b. lookup (fs w') (EXTENSION_DIR env @ [MANIFEST]) = Some (File mode b)
                   \<and> json_load env b = Some m" by simp
next
  assume b: "in_fs (clean_previous (EXTENSION_DIR env)) w = (Inr (), w1)
      \<and> download_unpack env url (EXTENSION_DIR env) w1 = (Inr (), w2)
      \<and> flatten_layout (EXTENSION_DIR env) (fs w2) = (Inr (), t3)
      \<and> \<not> exists_path t3 (EXTENSION_DIR env @ [MANIFEST])"
  then show "download_and_extract env url w
        = (Inl (RuntimeError (manifest_missing_message (EXTENSION_DIR env))), w2\<lparr>fs := t3\<rparr>)"
    by (simp add: download_and_extract_def and_then_def in_fs_def normalize_and_load_def load_manifest_def)
  from b show "is_dir t3 (EXTENSION_DIR env)" by (intro flatten_layout_keeps_directory) auto
qed

text \<open>
  An install of the wrapped archive on the example host, and one of an archive without
  a manifest.
\<close>

theorem install_success_leaves_manifest_witness:
  "download_and_extract (demo_host (Complete wrapped_archive) (\<lambda>k. 1)) ''u'' demo_world
     = (Inr [], demo_world\<lparr>fs := demo_tree flat_archive\<rparr>)
   \<and> is_dir (demo_tree flat_archive) demo_ext
   \<and> (\<exists>mode b. lookup (demo_tree flat_archive) (demo_ext @ [MANIFEST]) = Some (File mode b)
         \<and> json_load (demo_host (Complete wrapped_archive) (\<lambda>k. 1)) b = Some [])
   \<and> flatten_layout demo_ext (demo_tree bare_archive) = (Inr (), demo_tree bare_archive)
   \<and> \<not> exists_path (demo_tree bare_archive) (demo_ext @ [MANIFEST])
   \<and> download_and_extract (demo_host (Complete bare_archive) (\<lambda>k. 1)) ''u'' demo_world
       = (Inl (RuntimeError (manifest_missing_message demo_ext)), demo_world\<lparr>fs := demo_tree bare_archive\<rparr>)
   \<and> is_dir (demo_tree bare_archive) demo_ext"
proof -
  let ?env = "demo_host (Complete bare_archive) (\<lambda>k. 1)"
  have f: "flatten_layout demo_ext (demo_tree bare_archive) = (Inr (), demo_tree bare_archive)"
    and n: "\<not> exists_path (demo_tree bare_archive) (demo_ext @ [MANIFEST])"
    by (simp_all add: flatten_layout_def iterdir_def is_dir_def exists_path_def demo_tree_def
        demo_ext_def bare_archive_def MANIFEST_def)
  from install_success_leaves_manifest
    [of "demo_host (Complete wrapped_archive) (\<lambda>k. 1)" "''u''" demo_world "[]"
        "demo_world\<lparr>fs := demo_tree flat_archive\<rparr>"]
    demo_install_wrapped
  have a: "is_dir (demo_tree flat_archive) demo_ext
   \<and> (\<exists>mode b. lookup (demo_tree flat_archive) (demo_ext @ [MANIFEST]) = Some (File mode b)
         \<and> json_load (demo_host (Complete wrapped_archive) (\<lambda>k. 1)) b = Some [])"
    by (simp add: demo_ext_eq)
  from install_success_leaves_manifest
    [of ?env "''u''" demo_world _ _ "demo_world\<lparr>fs := demo_tree []\<rparr>"
        "demo_world\<lparr>fs := demo_tree bare_archive\<rparr>" "demo_tree bare_archive"]
    demo_stages [of bare_archive "\<lambda>k. 1"] f n
  have b: "download_and_extract ?env ''u'' demo_world
       = (Inl (RuntimeError (manifest_missing_message demo_ext)), demo_world\<lparr>fs := demo_tree bare_archive\<rparr>)
   \<and> is_dir (demo_tree bare_archive) demo_ext"
    by (simp add: demo_ext_eq)
  from a b f n demo_install_wrapped show ?thesis by simp
qed

text \<open>
  The claim as stated covers the state after a failure, and fails there: after the
  missing-manifest error the extension directory exists (line 116 made it, the archive
  was unpacked into it) and has no manifest at its root. \<open>cmd_launch\<close> tests for
  this very state (line 404).
\<close>

theorem install_failure_leaves_directory_counterexample:
  "fst (download_and_extract (demo_host (Complete bare_archive) (\<lambda>k. 1)) ''u'' demo_world)
     = Inl (RuntimeError ''manifest.json not found after extraction in /Users/me/.ublock-chrome/extension'')
   \<and> exists_path (fs (snd (download_and_extract (demo_host (Complete bare_archive) (\<lambda>k. 1)) ''u'' demo_world)))
        demo_ext
   \<and> \<not> exists_path (fs (snd (download_and_extract (demo_host (Complete bare_archive) (\<lambda>k. 1)) ''u'' demo_world)))
        (demo_ext @ [MANIFEST])"
  by code_simp

subsection \<open>C4: the temporary archive\<close>

text \<open>
  \<^bold>\<open>C4\<close>. Whatever the download and the unpacking do, the temporary directory holds
  after \<open>download_and_extract\<close> what it held before: the temporary file of line 119,
  created under a name that was free, is gone on every exit.
\<close>

theorem temporary_archive_always_deleted:
  "temp_files (snd (download_and_extract env url w)) = temp_files w
   \<and> (map_of (temp_files w) (tmp_name env) = None \<longrightarrow>
        named_temporary_file env w
          = (Inr (tmp_name env), w\<lparr>temp_files := (tmp_name env, []) # temp_files w\<rparr>)
        \<and> map_of (temp_files (snd (download_and_extract env url w))) (tmp_name env) = None)"
proof -
  have 1: "temp_files (snd (download_and_extract env url w)) = temp_files w"
  proof (cases "in_fs (clean_previous (EXTENSION_DIR env)) w")
    case (Pair r w1)
    have t1: "temp_files w1 = temp_files w" using temp_files_in_fs [of "clean_previous (EXTENSION_DIR env)" w] Pair by simp
    show ?thesis
    proof (cases r)
      case (Inl e)
      with Pair t1 show ?thesis by (simp add: download_and_extract_def and_then_def)
    next
      case (Inr u)
      show ?thesis
      proof (cases "download_unpack env url (EXTENSION_DIR env) w1")
        case p2: (Pair r2 w2)
        have t2: "temp_files w2 = temp_files w"
          using temp_files_download_unpack [of env url "EXTENSION_DIR env" w1] p2 t1 by simp
        show ?thesis
        proof (cases r2)
          case (Inl e)
          with Pair Inr p2 t2 show ?thesis by (simp add: download_and_extract_def and_then_def)
        next
          case r2: (Inr u2)
          with Pair Inr p2 t2 temp_files_in_fs [of "normalize_and_load env (EXTENSION_DIR env)" w2]
          show ?thesis by (simp add: download_and_extract_def and_then_def)
        qed
      qed
    qed
  qed
  then show ?thesis by (simp add: named_temporary_file_def)
qed

text \<open>
  The four exits: the download raises, the file is no archive, the unpacking stops part
  of the way, and the install succeeds.
\<close>

theorem temporary_archive_always_deleted_witness:
  "map_of (temp_files demo_world) ''tmpq3x9.zip'' = None
   \<and> fst (download_and_extract ((demo_host NotAZip (\<lambda>k. 1))\<lparr>urlretrieve := (\<lambda>u. Inl URLError)\<rparr>) ''u'' demo_world)
       = Inl URLError
   \<and> temp_files (snd (download_and_extract ((demo_host NotAZip (\<lambda>k. 1))\<lparr>urlretrieve := (\<lambda>u. Inl URLError)\<rparr>) ''u'' demo_world)) = []
   \<and> fst (download_and_extract (demo_host NotAZip (\<lambda>k. 1)) ''u'' demo_world) = Inl BadZipFile
   \<and> temp_files (snd (download_and_extract (demo_host NotAZip (\<lambda>k. 1)) ''u'' demo_world)) = []
   \<and> fst (download_and_extract (demo_host (Partial NotADirectoryError bare_archive) (\<lambda>k. 1)) ''u'' demo_world) = Inl NotADirectoryError
   \<and> temp_files (snd (download_and_extract (demo_host (Partial NotADirectoryError bare_archive) (\<lambda>k. 1)) ''u'' demo_world)) = []
   \<and> fst (download_and_extract (demo_host (Complete flat_archive) (\<lambda>k. 1)) ''u'' demo_world) = Inr []
   \<and> temp_files (snd (download_and_extract (demo_host (Complete flat_archive) (\<lambda>k. 1)) ''u'' demo_world)) = []"
proof -
  have e: "temp_files demo_world = []" by (simp add: demo_world_def)
  have r: "fst (download_and_extract ((demo_host NotAZip (\<lambda>k. 1))\<lparr>urlretrieve := (\<lambda>u. Inl URLError)\<rparr>) ''u'' demo_world)
       = Inl URLError"
    "fst (download_and_extract (demo_host NotAZip (\<lambda>k. 1)) ''u'' demo_world) = Inl BadZipFile"
    "fst (download_and_extract (demo_host (Partial NotADirectoryError bare_archive) (\<lambda>k. 1)) ''u'' demo_world) = Inl NotADirectoryError"
    "fst (download_and_extract (demo_host (Complete flat_archive) (\<lambda>k. 1)) ''u'' demo_world) = Inr []"
    by (simp_all add: demo_unfold bare_archive_def flat_archive_def)
  from e r
    temporary_archive_always_deleted [of "(demo_host NotAZip (\<lambda>k. 1))\<lparr>urlretrieve := (\<lambda>u. Inl URLError)\<rparr>" "''u''" demo_world]
    temporary_archive_always_deleted [of "demo_host NotAZip (\<lambda>k. 1)" "''u''" demo_world]
    temporary_archive_always_deleted [of "demo_host (Partial NotADirectoryError bare_archive) (\<lambda>k. 1)" "''u''" demo_world]
    temporary_archive_always_deleted [of "demo_host (Complete flat_archive) (\<lambda>k. 1)" "''u''" demo_world]
  show ?thesis by simp
qed

subsection \<open>C5: the missing-manifest error\<close>

text \<open>
  \<^bold>\<open>C5\<close>, as amended. Let the previous install be cleaned, the archive be unpacked
  and the layout be flattened, leaving the tree \<open>t3\<close>. Then \<open>download_and_extract\<close>
  ends in the state with that tree, and it raises \<open>RuntimeError\<close> exactly when nothing
  exists at \<open>EXTENSION_DIR / "manifest.json"\<close>, neither a file nor a directory; the
  message is then \<open>manifest.json not found after extraction in\<close> followed by the
  extension directory.
\<close>

theorem missing_manifest_error:
  assumes "in_fs (clean_previous (EXTENSION_DIR env)) w = (Inr (), w1)"
      and "download_unpack env url (EXTENSION_DIR env) w1 = (Inr (), w2)"
      and "flatten_layout (EXTENSION_DIR env) (fs w2) = (Inr (), t3)"
  shows "snd (download_and_extract env url w) = w2\<lparr>fs := t3\<rparr>
         \<and> (fst (download_and_extract env url w) = Inl (RuntimeError msg) \<longleftrightarrow>
              \<not> exists_path t3 (EXTENSION_DIR env @ [MANIFEST])
              \<and> msg = ''manifest.json not found after extraction in '' @ path_str (EXTENSION_DIR env))"
proof -
  have "download_and_extract env url w = (load_manifest env (EXTENSION_DIR env) t3, w2\<lparr>fs := t3\<rparr>)"
    using assms by (simp add: download_and_extract_def and_then_def in_fs_def normalize_and_load_def)
  then show ?thesis by (simp add: load_manifest_RuntimeError)
qed

text \<open>
  An archive with its payload two levels down raises the error with the path of the
  example host; the flat archive does not.
\<close>

theorem missing_manifest_error_witness:
  "flatten_layout demo_ext (demo_tree nested_archive) = (Inr (), demo_tree nested_archive)
   \<and> \<not> exists_path (demo_tree nested_archive) (demo_ext @ [MANIFEST])
   \<and> download_and_extract (demo_host (Complete nested_archive) (\<lambda>k. 1)) ''u'' demo_world
       = (Inl (RuntimeError ''manifest.json not found after extraction in /Users/me/.ublock-chrome/extension''),
          demo_world\<lparr>fs := demo_tree nested_archive\<rparr>)
   \<and> exists_path (demo_tree flat_archive) (demo_ext @ [MANIFEST])
   \<and> fst (download_and_extract (demo_host (Complete flat_archive) (\<lambda>k. 1)) ''u'' demo_world)
       \<noteq> Inl (RuntimeError ''manifest.json not found after extraction in /Users/me/.ublock-chrome/extension'')"
proof -
  have n: "\<not> exists_path (demo_tree nested_archive) (demo_ext @ [MANIFEST])"
    and f: "exists_path (demo_tree flat_archive) (demo_ext @ [MANIFEST])"
    and p: "path_str demo_ext = ''/Users/me/.ublock-chrome/extension''"
    by (simp_all add: exists_path_def demo_tree_def demo_ext_def nested_archive_def flat_archive_def MANIFEST_def)
  note a = missing_manifest_error [OF demo_stages demo_flatten_nested,
      of "\<lambda>k. 1" "''manifest.json not found after extraction in /Users/me/.ublock-chrome/extension''"]
  note b = missing_manifest_error [OF demo_stages demo_flatten_flat,
      of "\<lambda>k. 1" "''manifest.json not found after extraction in /Users/me/.ublock-chrome/extension''"]
  from a n p have 1: "download_and_extract (demo_host (Complete nested_archive) (\<lambda>k. 1)) ''u'' demo_world
       = (Inl (RuntimeError ''manifest.json not found after extraction in /Users/me/.ublock-chrome/extension''),
          demo_world\<lparr>fs := demo_tree nested_archive\<rparr>)"
    by (simp add: demo_ext_eq prod_eq_iff)
  from b f have 2: "fst (download_and_extract (demo_host (Complete flat_archive) (\<lambda>k. 1)) ''u'' demo_world)
       \<noteq> Inl (RuntimeError ''manifest.json not found after extraction in /Users/me/.ublock-chrome/extension'')"
    by (simp add: demo_ext_eq)
  from demo_flatten_nested [of "\<lambda>k. 1"] have 3: "flatten_layout demo_ext (demo_tree nested_archive) = (Inr (), demo_tree nested_archive)"
    by (simp add: demo_ext_eq)
  from 1 2 3 n f show ?thesis by simp
qed

text \<open>
  The claim as stated fails in two ways. The message names the extension directory, not
  the expected path of the manifest: \<open>EXTENSION_DIR / "manifest.json"\<close> does not
  occur in it. And the test of line 142 is \<open>Path.exists\<close>, which a directory
  satisfies: for an archive whose single directory is called \<open>manifest.json\<close> the
  unpacking and the flattening complete, no manifest file is at the root, and
  \<open>open\<close> raises \<open>IsADirectoryError\<close>, not the missing-manifest error.
\<close>

theorem missing_manifest_path_counterexample:
  "manifest_missing_message demo_ext
     = ''manifest.json not found after extraction in /Users/me/.ublock-chrome/extension''
   \<and> path_str (demo_ext @ [MANIFEST]) = ''/Users/me/.ublock-chrome/extension/manifest.json''
   \<and> \<not> contains (path_str (demo_ext @ [MANIFEST])) (manifest_missing_message demo_ext)
   \<and> in_fs (clean_previous demo_ext) demo_world = (Inr (), demo_world\<lparr>fs := demo_tree []\<rparr>)
   \<and> download_unpack (demo_host (Complete misnamed_archive) (\<lambda>k. 1)) ''u'' demo_ext
        (demo_world\<lparr>fs := demo_tree []\<rparr>)
       = (Inr (), demo_world\<lparr>fs := demo_tree misnamed_archive\<rparr>)
   \<and> flatten_layout demo_ext (demo_tree misnamed_archive) = (Inr (), demo_tree misnamed_archive)
   \<and> is_dir (demo_tree misnamed_archive) (demo_ext @ [MANIFEST])
   \<and> \<not> is_file (demo_tree misnamed_archive) (demo_ext @ [MANIFEST])
   \<and> download_and_extract (demo_host (Complete misnamed_archive) (\<lambda>k. 1)) ''u'' demo_world
       = (Inl IsADirectoryError, demo_world\<lparr>fs := demo_tree misnamed_archive\<rparr>)"
proof -
  have m: "manifest_missing_message demo_ext
     = ''manifest.json not found after extraction in /Users/me/.ublock-chrome/extension''"
    and p: "path_str (demo_ext @ [MANIFEST]) = ''/Users/me/.ublock-chrome/extension/manifest.json''"
    by (simp_all add: manifest_missing_message_def demo_ext_def MANIFEST_def)
  have c: "\<not> contains ''/Users/me/.ublock-chrome/extension/manifest.json''
      ''manifest.json not found after extraction in /Users/me/.ublock-chrome/extension''"
    by code_simp
  have s: "in_fs (clean_previous demo_ext) demo_world = (Inr (), demo_world\<lparr>fs := demo_tree []\<rparr>)"
    "download_unpack (demo_host (Complete misnamed_archive) (\<lambda>k. 1)) ''u'' demo_ext
        (demo_world\<lparr>fs := demo_tree []\<rparr>)
       = (Inr (), demo_world\<lparr>fs := demo_tree misnamed_archive\<rparr>)"
    using demo_stages [of misnamed_archive "\<lambda>k. 1"] by (simp_all add: demo_ext_eq)
  have f: "flatten_layout demo_ext (demo_tree misnamed_archive) = (Inr (), demo_tree misnamed_archive)"
    "is_dir (demo_tree misnamed_archive) (demo_ext @ [MANIFEST])"
    "\<not> is_file (demo_tree misnamed_archive) (demo_ext @ [MANIFEST])"
    by (simp_all add: flatten_layout_def iterdir_def is_dir_def is_file_def exists_path_def
        demo_tree_def demo_ext_def misnamed_archive_def MANIFEST_def)
  have d: "download_and_extract (demo_host (Complete misnamed_archive) (\<lambda>k. 1)) ''u'' demo_world
       = (Inl IsADirectoryError, demo_world\<lparr>fs := demo_tree misnamed_archive\<rparr>)"
    by (simp add: demo_unfold misnamed_archive_def)
  from m p c s f d show ?thesis by simp
qed

subsection \<open>C6: the forced termination\<close>

text \<open>
  \<^bold>\<open>C6\<close>. \<open>pgrep\<close> reports the browser gone by a return code other than 0. When
  the first check reports it gone, \<open>quit_chrome_if_running\<close> runs nothing else. When it
  is present and one of the 30 polls reports it gone, no \<open>pkill\<close> is run. When it is
  present at the first check and at all 30 polls, \<open>pkill\<close> is run exactly once.
\<close>

theorem forced_termination_count:
  "(pgrep env (pgrep_calls w) \<noteq> 0 \<longrightarrow>
      events (quit_chrome_if_running env w) = events w @ [Run PGREP])
   \<and> (pgrep env (pgrep_calls w) = 0 \<and> (\<exists>k < 30. pgrep env (Suc (pgrep_calls w) + k) \<noteq> 0) \<longrightarrow>
      count_list (events (quit_chrome_if_running env w)) (Run PKILL) = count_list (events w) (Run PKILL))
   \<and> (pgrep env (pgrep_calls w) = 0 \<and> (\<forall>k < 30. pgrep env (Suc (pgrep_calls w) + k) = 0) \<longrightarrow>
      count_list (events (quit_chrome_if_running env w)) (Run PKILL)
        = count_list (events w) (Run PKILL) + 1)"
proof -
  let ?w1 = "(run PGREP w)\<lparr>pgrep_calls := Suc (pgrep_calls w)\<rparr>"
  let ?w2 = "run OSASCRIPT_QUIT (say ''  Quitting Chrome...'' ?w1)"
  obtain b w3 where w3: "wait_for_exit env 30 ?w2 = (b, w3)" by (cases "wait_for_exit env 30 ?w2")
  have ne: "Run PGREP \<noteq> Run PKILL" "Run OSASCRIPT_QUIT \<noteq> Run PKILL"
    by (simp_all add: PGREP_def PKILL_def OSASCRIPT_QUIT_def)
  have k2: "count_list (events ?w2) (Run PKILL) = count_list (events w) (Run PKILL)"
    using ne by (simp add: run_def say_def)
  have c2: "pgrep_calls ?w2 = Suc (pgrep_calls w)" by (simp add: run_def say_def)
  from wait_for_exit_kills [OF w3] k2 c2
  have k3: "count_list (events w3) (Run PKILL) = count_list (events w) (Run PKILL)"
    and b: "b \<longleftrightarrow> (\<exists>k < 30. pgrep env (Suc (pgrep_calls w) + k) \<noteq> 0)" by simp_all
  have q: "pgrep env (pgrep_calls w) = 0 \<Longrightarrow>
      quit_chrome_if_running env w = say ''  Chrome stopped.'' (if b then w3 else sleep 1000 (run PKILL w3))"
    using w3 by (simp add: quit_chrome_if_running_def run_pgrep_def)
  show ?thesis
  proof (intro conjI impI)
    assume "pgrep env (pgrep_calls w) \<noteq> 0"
    then show "events (quit_chrome_if_running env w) = events w @ [Run PGREP]"
      by (simp add: quit_chrome_if_running_def run_pgrep_def run_def)
  next
    assume "pgrep env (pgrep_calls w) = 0 \<and> (\<exists>k < 30. pgrep env (Suc (pgrep_calls w) + k) \<noteq> 0)"
    with q b k3 show "count_list (events (quit_chrome_if_running env w)) (Run PKILL)
        = count_list (events w) (Run PKILL)"
      by (simp add: say_def)
  next
    assume "pgrep env (pgrep_calls w) = 0 \<and> (\<forall>k < 30. pgrep env (Suc (pgrep_calls w) + k) = 0)"
    with q b k3 show "count_list (events (quit_chrome_if_running env w)) (Run PKILL)
        = count_list (events w) (Run PKILL) + 1"
      by (simp add: say_def sleep_def run_def)
  qed
qed

text \<open>
  A browser that is not running, one that is gone at the thirtieth poll, and one that
  never exits.
\<close>

theorem forced_termination_count_witness:
  "events (quit_chrome_if_running (demo_host NotAZip (\<lambda>k. 1)) demo_world) = [Run PGREP]
   \<and> count_list (events (quit_chrome_if_running (demo_host NotAZip (\<lambda>k. if k < 30 then 0 else 1)) demo_world))
        (Run PKILL) = 0
   \<and> count_list (events (quit_chrome_if_running (demo_host NotAZip (\<lambda>k. 0)) demo_world)) (Run PKILL) = 1"
proof -
  have c: "pgrep_calls demo_world = 0" "events demo_world = []" by (simp_all add: demo_world_def)
  have p: "\<And>f. pgrep (demo_host NotAZip f) = f" by (simp add: demo_host_def)
  have "\<exists>k < 30. (if Suc 0 + k < 30 then 0 else (1::int)) \<noteq> 0"
    by (intro exI [of _ 29]) simp
  with forced_termination_count [of "demo_host NotAZip (\<lambda>k. 1)" demo_world]
    forced_termination_count [of "demo_host NotAZip (\<lambda>k. if k < 30 then 0 else 1)" demo_world]
    forced_termination_count [of "demo_host NotAZip (\<lambda>k. 0)" demo_world] c p
  show ?thesis by simp
qed

subsection \<open>C7: the copy in the applications folder\<close>

text \<open>
  \<^bold>\<open>C7\<close>. After \<open>create_launcher_app\<close> and then \<open>install_app_to_applications\<close>
  have returned, the bundle in the private installation directory is a directory, the
  tree at the bundle path of the applications folder equals it (names, bytes and
  permission bits), and the copy was made by \<open>shutil.copytree\<close> in a state where
  nothing existed at the destination.
\<close>

theorem applications_copy_is_verbatim:
  assumes "create_launcher_app env t = (Inr app, t1)"
      and "install_app_to_applications env app t1 = (Inr dest, t2)"
  shows "app = INSTALL_DIR env @ [APP_NAME] \<and> dest = home env @ [''Applications'', APP_NAME]
         \<and> is_dir t2 app \<and> lookup t2 dest = lookup t2 app
         \<and> (\<exists>t'. \<not> exists_path t' dest \<and> copytree app dest t' = Inr t2)"
proof -
  have app: "app = INSTALL_DIR env @ [APP_NAME]" using assms(1) by (rule create_launcher_app_path)
  let ?dest = "home env @ [''Applications'', APP_NAME]"
  from assms(2) obtain ta tb where
    dest: "dest = ?dest"
    and tb: "(if exists_path ta ?dest then prim (rmtree ?dest) ta else (Inr (), ta)) = (Inr (), tb)"
    and cp: "copytree app ?dest tb = Inr t2"
    by (auto simp: install_app_to_applications_def Let_def and_then_Inr prim_Inr cong: if_cong)
  have gone: "\<not> exists_path tb ?dest"
  proof (cases "exists_path ta ?dest")
    case True
    with tb have "rmtree ?dest ta = Inr tb" by (simp add: prim_Inr)
    then show ?thesis by (rule rmtree_removes) simp
  next
    case False
    with tb show ?thesis by simp
  qed
  from copytree_copies [OF cp] bundle_paths_apart(1) [of env] app
  have "lookup t2 ?dest = lookup t2 app \<and> is_dir t2 app" by simp
  with app dest gone cp show ?thesis by blast
qed

text \<open>
  On a host with an older bundle in the applications folder: both paths hold the tree
  just built, and the file of the older bundle is gone.
\<close>

theorem applications_copy_is_verbatim_witness:
  "lookup (fs stale_world) [''Users'', ''me'', ''Applications'', ''Chrome (uBO).app'', ''Contents'', ''old.txt'']
     = Some (File 420 ''old'')
   \<and> fst (create_launcher_app (demo_host NotAZip (\<lambda>k. 1)) (fs stale_world))
     = Inr [''Users'', ''me'', ''.ublock-chrome'', ''Chrome (uBO).app'']
   \<and> fst (install_app_to_applications (demo_host NotAZip (\<lambda>k. 1))
         [''Users'', ''me'', ''.ublock-chrome'', ''Chrome (uBO).app'']
         (snd (create_launcher_app (demo_host NotAZip (\<lambda>k. 1)) (fs stale_world))))
     = Inr [''Users'', ''me'', ''Applications'', ''Chrome (uBO).app'']
   \<and> lookup (snd (install_app_to_applications (demo_host NotAZip (\<lambda>k. 1))
         [''Users'', ''me'', ''.ublock-chrome'', ''Chrome (uBO).app'']
         (snd (create_launcher_app (demo_host NotAZip (\<lambda>k. 1)) (fs stale_world)))))
      [''Users'', ''me'', ''.ublock-chrome'', ''Chrome (uBO).app'']
     = Some bundle_tree
   \<and> lookup (snd (install_app_to_applications (demo_host NotAZip (\<lambda>k. 1))
         [''Users'', ''me'', ''.ublock-chrome'', ''Chrome (uBO).app'']
         (snd (create_launcher_app (demo_host NotAZip (\<lambda>k. 1)) (fs stale_world)))))
      [''Users'', ''me'', ''Applications'', ''Chrome (uBO).app'']
     = Some bundle_tree"
proof -
  let ?env = "demo_host NotAZip (\<lambda>k. 1)"
  let ?app = "[''Users'', ''me'', ''.ublock-chrome'', ''Chrome (uBO).app'']"
  let ?dest = "[''Users'', ''me'', ''Applications'', ''Chrome (uBO).app'']"
  let ?t1 = "snd (create_launcher_app ?env (fs stale_world))"
  let ?t2 = "snd (install_app_to_applications ?env ?app ?t1)"
  have b: "create_launcher_app ?env (fs stale_world) = (Inr ?app, ?t1)"
    using demo_build by (simp add: prod_eq_iff)
  have d: "install_app_to_applications ?env ?app ?t1 = (Inr ?dest, ?t2)"
    using demo_deploy by (simp add: prod_eq_iff)
  have o: "lookup (fs stale_world) [''Users'', ''me'', ''Applications'', ''Chrome (uBO).app'', ''Contents'', ''old.txt'']
     = Some (File 420 ''old'')"
    by (simp add: stale_world_def)
  from applications_copy_is_verbatim [OF b d] have "lookup ?t2 ?dest = lookup ?t2 ?app" by blast
  with demo_deployed_tree demo_build demo_deploy o show ?thesis by simp
qed

subsection \<open>C8: the launch command\<close>

text \<open>
  \<^bold>\<open>C8\<close>, as amended. On a macOS host with the browser present at
  \<open>CHROME_APP_PATH\<close>: when the extension directory or the manifest at its root is
  absent, \<open>cmd_launch\<close> exits with status 1, its only effect being the line on the error
  stream that tells the user to run \<open>ublock-chrome install\<close>; when both are present it
  returns normally, having run \<open>quit_chrome_if_running\<close> and then \<open>open\<close> with the
  two arguments \<open>MV2_FLAGS\<close> and \<open>--load-extension=\<close> followed by the extension
  directory after \<open>--args\<close>. When the presence check reports the browser not running,
  that check and the start of the browser are the only processes run.
\<close>

theorem launch_after_preflight:
  assumes "platform env = ''darwin''" and "exists_path (fs w) CHROME_APP_PATH"
  shows "(\<not> exists_path (fs w) (EXTENSION_DIR env) \<or> \<not> exists_path (fs w) (EXTENSION_DIR env @ [MANIFEST])
            \<longrightarrow> cmd_launch env w
                  = (Inl (SystemExit 1),
                     w\<lparr>stderr := stderr w @ [''Error: uBlock Origin is not installed yet.'' @ newline
                                               @ ''Run:  ublock-chrome install'']\<rparr>))
         \<and> (exists_path (fs w) (EXTENSION_DIR env) \<and> exists_path (fs w) (EXTENSION_DIR env @ [MANIFEST])
            \<longrightarrow> fst (cmd_launch env w) = Inr ()
                \<and> events (snd (cmd_launch env w))
                    = events (quit_chrome_if_running env (say ''  Restarting Chrome with uBlock Origin...'' w))
                      @ [Popen [''open'', ''-a'', ''/Applications/Google Chrome.app'', ''--args'',
                                MV2_FLAGS, ''--load-extension='' @ path_str (EXTENSION_DIR env)]]
                \<and> (pgrep env (pgrep_calls w) \<noteq> 0 \<longrightarrow>
                     events (snd (cmd_launch env w))
                       = events w @ [Run PGREP,
                            Popen [''open'', ''-a'', ''/Applications/Google Chrome.app'', ''--args'',
                                   MV2_FLAGS, ''--load-extension='' @ path_str (EXTENSION_DIR env)]]))"
proof -
  have argv: "launch_argv env = [''open'', ''-a'', ''/Applications/Google Chrome.app'', ''--args'',
                                MV2_FLAGS, ''--load-extension='' @ path_str (EXTENSION_DIR env)]"
    by (simp add: launch_argv_def CHROME_APP_PATH_def)
  have q: "pgrep env (pgrep_calls w) \<noteq> 0 \<Longrightarrow>
      events (quit_chrome_if_running env (say ''  Restarting Chrome with uBlock Origin...'' w))
        = events w @ [Run PGREP]"
    by (simp add: quit_chrome_if_running_def run_pgrep_def run_def say_def)
  show ?thesis
    using assms q
    by (auto simp: cmd_launch_def and_then_def check_macos_def check_chrome_def complain_def
        not_installed_message_def launch_chrome_with_ubo_def say_def argv)
qed

text \<open>
The example host before an install and after one.
\<close>

theorem launch_after_preflight_witness:
  "cmd_launch (demo_host NotAZip (\<lambda>k. 1)) demo_world
     = (Inl (SystemExit 1),
        demo_world\<lparr>stderr := [''Error: uBlock Origin is not installed yet.'' @ newline
                                @ ''Run:  ublock-chrome install'']\<rparr>)
   \<and> fst (cmd_launch (demo_host NotAZip (\<lambda>k. 1)) (demo_world\<lparr>fs := demo_tree flat_archive\<rparr>)) = Inr ()
   \<and> events (snd (cmd_launch (demo_host NotAZip (\<lambda>k. 1)) (demo_world\<lparr>fs := demo_tree flat_archive\<rparr>)))
       = [Run PGREP,
          Popen [''open'', ''-a'', ''/Applications/Google Chrome.app'', ''--args'',
                 ''--disable-features=ExtensionManifestV2Unsupported,ExtensionManifestV2Disabled'',
                 ''--load-extension=/Users/me/.ublock-chrome/extension'']]"
proof -
  let ?env = "demo_host NotAZip (\<lambda>k. 1)"
  have 1: "platform ?env = ''darwin''" "pgrep ?env (pgrep_calls demo_world) \<noteq> 0"
    "pgrep_calls (demo_world\<lparr>fs := demo_tree flat_archive\<rparr>) = pgrep_calls demo_world"
    "stderr demo_world = []" "events demo_world = []"
    by (simp_all add: demo_host_def demo_world_def)
  have 2: "exists_path (fs demo_world) CHROME_APP_PATH"
    "exists_path (fs (demo_world\<lparr>fs := demo_tree flat_archive\<rparr>)) CHROME_APP_PATH"
    "\<not> exists_path (fs demo_world) (EXTENSION_DIR ?env)"
    "exists_path (fs (demo_world\<lparr>fs := demo_tree flat_archive\<rparr>)) (EXTENSION_DIR ?env)"
    "exists_path (fs (demo_world\<lparr>fs := demo_tree flat_archive\<rparr>)) (EXTENSION_DIR ?env @ [MANIFEST])"
    by (simp_all add: demo_ext_eq) (simp_all add: demo_world_def demo_tree_def demo_ext_def
        exists_path_def CHROME_APP_PATH_def flat_archive_def MANIFEST_def)
  have 3: "path_str (EXTENSION_DIR ?env) = ''/Users/me/.ublock-chrome/extension''"
    by (simp add: demo_ext_eq demo_ext_def)
  have 4: "pgrep ?env (pgrep_calls (demo_world\<lparr>fs := demo_tree flat_archive\<rparr>)) \<noteq> 0"
    "events (demo_world\<lparr>fs := demo_tree flat_archive\<rparr>) = []"
    by (simp_all add: demo_host_def demo_world_def)
  from launch_after_preflight [OF 1(1) 2(1)] 2(3) 1(4)
  have a: "cmd_launch ?env demo_world
     = (Inl (SystemExit 1),
        demo_world\<lparr>stderr := [''Error: uBlock Origin is not installed yet.'' @ newline
                                @ ''Run:  ublock-chrome install'']\<rparr>)"
    by simp
  from launch_after_preflight [OF 1(1) 2(2)] 2(4,5) 4(1)
  have b: "fst (cmd_launch ?env (demo_world\<lparr>fs := demo_tree flat_archive\<rparr>)) = Inr ()
     \<and> events (snd (cmd_launch ?env (demo_world\<lparr>fs := demo_tree flat_archive\<rparr>)))
         = events (demo_world\<lparr>fs := demo_tree flat_archive\<rparr>)
           @ [Run PGREP,
              Popen [''open'', ''-a'', ''/Applications/Google Chrome.app'', ''--args'',
                     MV2_FLAGS, ''--load-extension='' @ path_str (EXTENSION_DIR ?env)]]"
    by blast
  from a b 3 4(2) show ?thesis by (simp add: MV2_FLAGS_def)
qed

text \<open>
  The claim as stated leaves out the two preflight checks of lines 401-402. On a Linux
  host without the extension the error is that of \<open>_check_macos\<close>, not the one that
  points to the install. On a macOS host with the extension installed and no browser at
  \<open>CHROME_APP_PATH\<close> the command exits with status 1 and starts nothing.
\<close>

theorem launch_preflight_counterexample:
  "\<not> exists_path (fs demo_world) demo_ext
   \<and> cmd_launch ((demo_host NotAZip (\<lambda>k. 1))\<lparr>platform := ''linux''\<rparr>) demo_world
       = (Inl (SystemExit 1), demo_world\<lparr>stderr := [''Error: ublock-chrome is macOS-only.'']\<rparr>)
   \<and> exists_path (Dir [(''Users'', Dir [(''me'', Dir [(''.ublock-chrome'', Dir [(''extension'', Dir flat_archive)])])])])
        (demo_ext @ [MANIFEST])
   \<and> cmd_launch (demo_host NotAZip (\<lambda>k. 1))
        (demo_world\<lparr>fs := Dir [(''Users'', Dir [(''me'', Dir [(''.ublock-chrome'', Dir [(''extension'', Dir flat_archive)])])])]\<rparr>)
       = (Inl (SystemExit 1),
          demo_world\<lparr>fs := Dir [(''Users'', Dir [(''me'', Dir [(''.ublock-chrome'', Dir [(''extension'', Dir flat_archive)])])])],
                     stderr := [chrome_missing_message]\<rparr>)"
  by (simp add: command_unfold demo_ext_def flat_archive_def)

subsection \<open>C9: the uninstall command\<close>

text \<open>
  \<^bold>\<open>C9\<close>, as amended. On a macOS host, from every state in which each of the two
  targets is absent or is a directory, \<open>cmd_uninstall\<close> returns normally; afterwards
  neither target exists, and between the header and the closing lines it has printed one
  line for each target, \<open>Removed\<close> for one that existed and \<open>not found\<close> for one
  that did not.
\<close>

theorem uninstall_tolerates_absent_targets:
  assumes "platform env = ''darwin''"
      and "\<forall>p \<in> set (uninstall_targets env). exists_path (fs w) p \<longrightarrow> is_dir (fs w) p"
  shows "fst (cmd_uninstall env w) = Inr ()
         \<and> (\<forall>p \<in> set (uninstall_targets env). \<not> exists_path (fs (snd (cmd_uninstall env w))) p)
         \<and> stdout (snd (cmd_uninstall env w))
             = stdout (print_header ''Uninstalling uBlock Origin Chrome'' w)
               @ [if exists_path (fs w) (INSTALL_DIR env)
                  then ''  Removed: '' @ path_str (INSTALL_DIR env)
                  else ''  (not found: '' @ path_str (INSTALL_DIR env) @ '')'',
                  if exists_path (fs w) (home env @ [''Applications'', APP_NAME])
                  then ''  Removed: '' @ path_str (home env @ [''Applications'', APP_NAME])
                  else ''  (not found: '' @ path_str (home env @ [''Applications'', APP_NAME]) @ '')'',
                  [], ''  Done. uBlock Origin and the launcher have been removed.'', []]"
proof -
  let ?p1 = "INSTALL_DIR env" and ?p2 = "home env @ [''Applications'', APP_NAME]"
  let ?w0 = "print_header ''Uninstalling uBlock Origin Chrome'' w"
  have fs0: "fs ?w0 = fs w" by (simp add: print_header_def say_def)
  have ne: "?p1 \<noteq> []" "?p2 \<noteq> []" by (simp_all add: INSTALL_DIR_def)
  from assms(2) have d1: "exists_path (fs ?w0) ?p1 \<longrightarrow> is_dir (fs ?w0) ?p1"
    and d2: "exists_path (fs w) ?p2 \<longrightarrow> is_dir (fs w) ?p2"
    by (simp_all add: uninstall_targets_def fs0)
  from remove_one [OF d1 ne(1), of "[?p2]"] obtain t1 where
    t1: "remove_targets [?p1, ?p2] ?w0 = remove_targets [?p2] (say (report (fs w) ?p1) (?w0\<lparr>fs := t1\<rparr>))"
      "\<not> exists_path t1 ?p1"
      "\<forall>q. \<not> prefix ?p1 q \<and> \<not> prefix q ?p1 \<longrightarrow> lookup t1 q = lookup (fs w) q"
    by (auto simp: fs0)
  let ?w1 = "say (report (fs w) ?p1) (?w0\<lparr>fs := t1\<rparr>)"
  have fs1: "fs ?w1 = t1" by (simp add: say_def)
  from t1(3) targets_apart [of env] have same2: "lookup t1 ?p2 = lookup (fs w) ?p2" by blast
  with d2 have d2': "exists_path (fs ?w1) ?p2 \<longrightarrow> is_dir (fs ?w1) ?p2"
    by (simp add: fs1 exists_path_def is_dir_def)
  from remove_one [OF d2' ne(2), of "[]"] obtain t2 where
    t2: "remove_targets [?p2] ?w1 = (Inr (), say (report t1 ?p2) (?w1\<lparr>fs := t2\<rparr>))"
      "\<not> exists_path t2 ?p2"
      "\<forall>q. \<not> prefix ?p2 q \<and> \<not> prefix q ?p2 \<longrightarrow> lookup t2 q = lookup t1 q"
    by (auto simp: fs1)
  from t2(3) targets_apart [of env] have "lookup t2 ?p1 = lookup t1 ?p1" by blast
  with t1(2) have gone1: "\<not> exists_path t2 ?p1" by (simp add: exists_path_def)
  have rep2: "report t1 ?p2 = report (fs w) ?p2" using same2 by (simp add: report_def exists_path_def)
  let ?w2 = "say (report (fs w) ?p2) (?w1\<lparr>fs := t2\<rparr>)"
  have run: "cmd_uninstall env w =
      (Inr (), say [] (say ''  Done. uBlock Origin and the launcher have been removed.'' (say [] ?w2)))"
    using assms(1) t1(1) t2(1) rep2
    by (simp add: cmd_uninstall_def and_then_def check_macos_def uninstall_targets_def)
  show ?thesis
    unfolding run using gone1 t2(2)
    by (simp add: say_def uninstall_targets_def report_def)
qed

text \<open>
  The example host with nothing installed, and with the private directory installed and
  no bundle in the applications folder.
\<close>

theorem uninstall_tolerates_absent_targets_witness:
  "fst (cmd_uninstall (demo_host NotAZip (\<lambda>k. 1)) demo_world) = Inr ()
   \<and> stdout (snd (cmd_uninstall (demo_host NotAZip (\<lambda>k. 1)) demo_world))
       = [[], replicate 54 CHR ''='', ''  Uninstalling uBlock Origin Chrome'', replicate 54 CHR ''='', [],
          ''  (not found: /Users/me/.ublock-chrome)'',
          ''  (not found: /Users/me/Applications/Chrome (uBO).app)'',
          [], ''  Done. uBlock Origin and the launcher have been removed.'', []]
   \<and> fst (cmd_uninstall (demo_host NotAZip (\<lambda>k. 1)) (demo_world\<lparr>fs := demo_tree flat_archive\<rparr>)) = Inr ()
   \<and> \<not> exists_path (fs (snd (cmd_uninstall (demo_host NotAZip (\<lambda>k. 1)) (demo_world\<lparr>fs := demo_tree flat_archive\<rparr>))))
         [''Users'', ''me'', ''.ublock-chrome'']
   \<and> stdout (snd (cmd_uninstall (demo_host NotAZip (\<lambda>k. 1)) (demo_world\<lparr>fs := demo_tree flat_archive\<rparr>)))
       = [[], replicate 54 CHR ''='', ''  Uninstalling uBlock Origin Chrome'', replicate 54 CHR ''='', [],
          ''  Removed: /Users/me/.ublock-chrome'',
          ''  (not found: /Users/me/Applications/Chrome (uBO).app)'',
          [], ''  Done. uBlock Origin and the launcher have been removed.'', []]"
proof -
  let ?env = "demo_host NotAZip (\<lambda>k. 1)"
  let ?w = "demo_world\<lparr>fs := demo_tree flat_archive\<rparr>"
  have p: "platform ?env = ''darwin''" by (simp add: demo_host_def)
  have t: "uninstall_targets ?env = [[''Users'', ''me'', ''.ublock-chrome''],
      [''Users'', ''me'', ''Applications'', ''Chrome (uBO).app'']]"
    "INSTALL_DIR ?env = [''Users'', ''me'', ''.ublock-chrome'']"
    "home ?env = [''Users'', ''me'']"
    by (simp_all add: uninstall_targets_def INSTALL_DIR_def demo_host_def APP_NAME_def)
  have e: "\<not> exists_path (fs demo_world) [''Users'', ''me'', ''.ublock-chrome'']"
    "\<not> exists_path (fs demo_world) [''Users'', ''me'', ''Applications'', ''Chrome (uBO).app'']"
    "exists_path (fs ?w) [''Users'', ''me'', ''.ublock-chrome'']"
    "is_dir (fs ?w) [''Users'', ''me'', ''.ublock-chrome'']"
    "\<not> exists_path (fs ?w) [''Users'', ''me'', ''Applications'', ''Chrome (uBO).app'']"
    "stdout demo_world = []"
    by (simp_all add: demo_world_def demo_tree_def exists_path_def is_dir_def)
  have h1: "\<forall>p \<in> set (uninstall_targets ?env). exists_path (fs demo_world) p \<longrightarrow> is_dir (fs demo_world) p"
    using e by (simp add: t)
  have h2: "\<forall>p \<in> set (uninstall_targets ?env). exists_path (fs ?w) p \<longrightarrow> is_dir (fs ?w) p"
    using e by (simp add: t)
  from uninstall_tolerates_absent_targets [OF p h1] uninstall_tolerates_absent_targets [OF p h2] e
  show ?thesis by (simp add: t print_header_def say_def APP_NAME_def)
qed

text \<open>
  The claim as stated holds for every starting state, and fails for a state in which the
  private installation directory is a regular file: \<open>p.exists()\<close> holds and
  \<open>shutil.rmtree\<close> raises \<open>NotADirectoryError\<close>. On a host other than macOS the
  command exits with status 1.
\<close>

theorem uninstall_file_target_counterexample:
  "lookup (Dir [(''Users'', Dir [(''me'', Dir [(''.ublock-chrome'', File 420 ''notes'')])])])
     [''Users'', ''me'', ''.ublock-chrome''] = Some (File 420 ''notes'')
   \<and> fst (cmd_uninstall (demo_host NotAZip (\<lambda>k. 1))
        (demo_world\<lparr>fs := Dir [(''Users'', Dir [(''me'', Dir [(''.ublock-chrome'', File 420 ''notes'')])])]\<rparr>))
       = Inl NotADirectoryError
   \<and> cmd_uninstall ((demo_host NotAZip (\<lambda>k. 1))\<lparr>platform := ''linux''\<rparr>) demo_world
       = (Inl (SystemExit 1), demo_world\<lparr>stderr := [''Error: ublock-chrome is macOS-only.'']\<rparr>)"
  by (simp add: command_unfold)

subsection \<open>C10: a wrapping directory without a manifest\<close>

text \<open>
  \<^bold>\<open>C10\<close>, as amended. When the extension directory holds, after the unpacking,
  exactly one entry, a directory that is not itself called \<open>manifest.json\<close> and has no
  manifest at its own root, the flattening moves nothing and \<open>download_and_extract\<close>
  raises the missing-manifest error, which names the extension directory, whatever lies
  deeper inside.
\<close>

theorem wrapper_without_manifest:
  assumes "lookup t ext = Some (Dir [(d, Dir cs)])" "map_of cs MANIFEST = None" "d \<noteq> MANIFEST"
  shows "flatten_layout ext t = (Inr (), t) \<and>
         normalize_and_load env ext t =
           (Inl (RuntimeError (''manifest.json not found after extraction in '' @ path_str ext)), t)"
proof -
  have "flatten_layout [] (Dir [(d, Dir cs)]) = (Inr (), Dir [(d, Dir cs)])"
    by (rule flatten_layout_flat) (use assms(2) in simp)
  then have f: "flatten_layout ext t = (Inr (), t)"
    using flatten_layout_below [OF assms(1)] assms(1) by (simp add: place_lookup_id result_below_def)
  have "\<not> exists_path t (ext @ [MANIFEST])"
    using assms by (simp add: exists_path_def lookup_append)
  with f show ?thesis
    by (simp add: normalize_and_load_def and_then_def load_manifest_def manifest_missing_message_def)
qed

text \<open>
The payload two levels down.
\<close>

theorem wrapper_without_manifest_witness:
  "lookup (demo_tree nested_archive) demo_ext
     = Some (Dir [(''uBlock0'', Dir [(''dist'', Dir [(''manifest.json'', File 420 ''{}'')])])])
   \<and> flatten_layout demo_ext (demo_tree nested_archive) = (Inr (), demo_tree nested_archive)
   \<and> normalize_and_load (demo_host NotAZip (\<lambda>k. 1)) demo_ext (demo_tree nested_archive)
       = (Inl (RuntimeError ''manifest.json not found after extraction in /Users/me/.ublock-chrome/extension''),
          demo_tree nested_archive)"
proof -
  have l: "lookup (demo_tree nested_archive) demo_ext
     = Some (Dir [(''uBlock0'', Dir [(''dist'', Dir [(''manifest.json'', File 420 ''{}'')])])])"
    by (simp add: lookup_demo_tree nested_archive_def)
  have h: "map_of [(''dist'', Dir [(''manifest.json'', File 420 ''{}'')])] MANIFEST = None"
    "''uBlock0'' \<noteq> MANIFEST"
    by (simp_all add: MANIFEST_def)
  have p: "path_str demo_ext = ''/Users/me/.ublock-chrome/extension''" by (simp add: demo_ext_def)
  from wrapper_without_manifest [OF l h, of "demo_host NotAZip (\<lambda>k. 1)"] l p show ?thesis by simp
qed

text \<open>
  The claim as stated fails when the single directory is itself called
  \<open>manifest.json\<close>: line 142 finds that something exists at the manifest's path, and
  \<open>open\<close> raises \<open>IsADirectoryError\<close> in place of the missing-manifest error.
\<close>

theorem manifest_named_directory_counterexample:
  "lookup (demo_tree misnamed_archive) demo_ext
     = Some (Dir [(''manifest.json'', Dir [(''dist'', Dir [(''manifest.json'', File 420 ''{}'')])])])
   \<and> normalize_and_load (demo_host NotAZip (\<lambda>k. 1)) demo_ext (demo_tree misnamed_archive)
     = (Inl IsADirectoryError, demo_tree misnamed_archive)
   \<and> download_and_extract (demo_host (Complete misnamed_archive) (\<lambda>k. 1)) ''u'' demo_world
     = (Inl IsADirectoryError, demo_world\<lparr>fs := demo_tree misnamed_archive\<rparr>)"
  by (simp add: demo_unfold misnamed_archive_def)

end
